theory Spec2Isabelle
  imports Complex_Main "HOL-Library.Word"
begin

section \<open>Pixel images\<close>

text \<open>
  The optimizer works on RGBA images (\<^verbatim>\<open>Image.open(piece_path).convert('RGBA')\<close>): a
  rectangular grid of pixels with four 8-bit channels. \<^verbatim>\<open>np.array(image)\<close> has shape
  \<open>(height, width, 4)\<close>, so the pixel data is kept as a list of rows. Pillow keeps
  \<open>width\<close> and \<open>height\<close> beside the data; \<open>wf_image\<close> says that the data has that shape,
  which holds of every image Pillow hands out.
\<close>

record pixel =
  red :: "8 word"
  green :: "8 word"
  blue :: "8 word"
  alpha :: "8 word"

record image =
  img_width :: nat
  img_height :: nat
  img_pixels :: "pixel list list"

definition wf_image :: "image \<Rightarrow> bool" where
  "wf_image im \<longleftrightarrow>
     length (img_pixels im) = img_height im \<and>
     list_all (\<lambda>row. length row = img_width im) (img_pixels im)"

text \<open>\<^verbatim>\<open>image.getpixel((x, y))\<close>: column \<open>x\<close> of row \<open>y\<close>.\<close>

definition getpixel :: "image \<Rightarrow> nat \<Rightarrow> nat \<Rightarrow> pixel" where
  "getpixel im x y = img_pixels im ! y ! x"

text \<open>
  An image given by its size and a function from coordinates to pixels; used to write
  down concrete images.
\<close>

definition make_image :: "nat \<Rightarrow> nat \<Rightarrow> (nat \<Rightarrow> nat \<Rightarrow> pixel) \<Rightarrow> image" where
  "make_image w h f =
     \<lparr>img_width = w, img_height = h,
      img_pixels = map (\<lambda>y. map (\<lambda>x. f x y) [0..<w]) [0..<h]\<rparr>"

definition transparent_pixel :: pixel where
  "transparent_pixel = \<lparr>red = 0, green = 0, blue = 0, alpha = 0\<rparr>"

definition opaque_red :: pixel where
  "opaque_red = \<lparr>red = 255, green = 0, blue = 0, alpha = 255\<rparr>"

text \<open>
  A transparent \<open>w \<times> h\<close> image with an opaque rectangle covering columns \<open>l..r\<close> and rows
  \<open>t..b\<close>, both ends included (the test images of \<^verbatim>\<open>test_optimization.py\<close>).
\<close>

definition rect_image :: "nat \<Rightarrow> nat \<Rightarrow> nat \<Rightarrow> nat \<Rightarrow> nat \<Rightarrow> nat \<Rightarrow> image" where
  "rect_image w h l t r b =
     make_image w h
       (\<lambda>x y. if l \<le> x \<and> x \<le> r \<and> t \<le> y \<and> y \<le> b then opaque_red else transparent_pixel)"

section \<open>The numpy primitives used by bounds detection\<close>

text \<open>
  \<^verbatim>\<open>img_array[:, :, 3]\<close> selects the alpha channel, \<^verbatim>\<open>alpha_channel > 0\<close> compares
  elementwise, \<^verbatim>\<open>np.any\<close> is the disjunction of all entries, along every row
  (\<^verbatim>\<open>axis=1\<close>) or down every column (\<^verbatim>\<open>axis=0\<close>; the array has \<open>w\<close> columns), and
  \<^verbatim>\<open>np.argmax\<close> on a boolean array is the index of its first \<open>True\<close>, and 0 when there
  is none.
\<close>

definition alpha_channel :: "image \<Rightarrow> 8 word list list" where
  "alpha_channel im = map (map alpha) (img_pixels im)"

definition np_gt0 :: "8 word list list \<Rightarrow> bool list list" where
  "np_gt0 a = map (map (\<lambda>v. 0 < v)) a"

definition np_any :: "bool list list \<Rightarrow> bool" where
  "np_any a = list_ex (list_ex (\<lambda>v. v)) a"

definition np_any_axis1 :: "bool list list \<Rightarrow> bool list" where
  "np_any_axis1 a = map (list_ex (\<lambda>v. v)) a"

definition np_any_axis0 :: "nat \<Rightarrow> bool list list \<Rightarrow> bool list" where
  "np_any_axis0 w a = map (\<lambda>x. list_ex (\<lambda>row. row ! x) a) [0..<w]"

definition np_argmax :: "bool list \<Rightarrow> nat" where
  "np_argmax bs = (if list_ex (\<lambda>v. v) bs then length (takeWhile Not bs) else 0)"

section \<open>Bounding boxes\<close>

text \<open>
  \<^verbatim>\<open>BoundingBox(left, top, right, bottom)\<close>; the fields carry the prefix \<open>bb_\<close> since
  \<open>top\<close> is a constant of HOL.
\<close>

record bounding_box =
  bb_left :: int
  bb_top :: int
  bb_right :: int
  bb_bottom :: int

text \<open>
  \<^verbatim>\<open>BoundingBox.width\<close> and \<^verbatim>\<open>BoundingBox.height\<close> of \<^verbatim>\<open>optimize_puzzle_assets.py\<close>
  (\<^verbatim>\<open>optimize_puzzle_assets_fixed.py\<close> has the same two properties).
\<close>

definition width :: "bounding_box \<Rightarrow> int" where
  "width self = bb_right self - bb_left self"

definition height :: "bounding_box \<Rightarrow> int" where
  "height self = bb_bottom self - bb_top self"

text \<open>The same properties in \<^verbatim>\<open>optimize_puzzle_assets_no_padding.py\<close>.\<close>

definition width_no_padding :: "bounding_box \<Rightarrow> int" where
  "width_no_padding self = bb_right self - bb_left self + 1"

definition height_no_padding :: "bounding_box \<Rightarrow> int" where
  "height_no_padding self = bb_bottom self - bb_top self + 1"

section \<open>Logging\<close>

text \<open>
  \<^verbatim>\<open>PuzzleOptimizer.log\<close> prints its message only when the optimizer was built with
  \<^verbatim>\<open>verbose=True\<close>. The messages are kept as values that carry the data the format
  strings interpolate, one constructor for each call of \<^verbatim>\<open>self.log\<close> in
  \<^verbatim>\<open>optimize_puzzle_assets.py\<close>; the model of a function of that script returns the
  messages it printed. \<open>py_error\<close> lists the exceptions the modelled code can raise.
\<close>

datatype py_error = ValueError | KeyError | OSError | ZeroDivisionError

datatype log_msg =
    Optimizing_piece string
  | Warning_completely_transparent
  | Warning_no_content string
  | Original_size nat nat int
  | Cropped_size nat nat int
  | Saved_bytes int
  | Error_optimizing_piece string py_error
  | Error_pieces_directory_not_found
  | Creating_optimized_layout
  | Copied_layout
  | Processing_pieces nat
  | Error_no_pieces_optimized
  | Warning_canvas_info
  | Optimization_complete
  | Pieces_optimized nat
  | Memory_reduction int
  | Output_directory

definition log_message :: "bool \<Rightarrow> log_msg \<Rightarrow> log_msg list" where
  "log_message verbose message = (if verbose then [message] else [])"

section \<open>Bounds detection\<close>

text \<open>
  \<^verbatim>\<open>PuzzleOptimizer.find_content_bounds\<close>, the same in the three scripts. The result is
  the printed log and the box, \<open>None\<close> for a completely transparent image.
\<close>

definition find_content_bounds :: "bool \<Rightarrow> image \<Rightarrow> log_msg list \<times> bounding_box option" where
  "find_content_bounds verbose img =
     (let non_transparent = np_gt0 (alpha_channel img) in
      if \<not> np_any non_transparent
      then (log_message verbose Warning_completely_transparent, None)
      else
        let rows = np_any_axis1 non_transparent;
            cols = np_any_axis0 (img_width img) non_transparent;
            top' = int (np_argmax rows);
            bottom' = int (length rows) - 1 - int (np_argmax (rev rows));
            left' = int (np_argmax cols);
            right' = int (length cols) - 1 - int (np_argmax (rev cols))
        in ([], Some \<lparr>bb_left = left', bb_top = top', bb_right = right', bb_bottom = bottom'\<rparr>))"

text \<open>
  The entry of \<^verbatim>\<open>non_transparent = alpha_channel > 0\<close> at row \<open>y\<close> and column \<open>x\<close>: the
  pixel \<open>(x, y)\<close> lies in the image and its alpha is not zero.
\<close>

definition content_at :: "image \<Rightarrow> nat \<Rightarrow> nat \<Rightarrow> bool" where
  "content_at im x y \<longleftrightarrow>
     x < img_width im \<and> y < img_height im \<and> 0 < alpha (getpixel im x y)"

section \<open>Cropping\<close>

text \<open>
  Pillow's \<^verbatim>\<open>Image.crop((left, upper, right, lower))\<close>: the right and lower coordinates
  are exclusive, the result has size \<open>(right - left) \<times> (lower - upper)\<close>, a part of the
  box that lies outside the image is filled with zero pixels, and a box whose right is
  less than its left, or lower less than upper, raises \<^verbatim>\<open>ValueError\<close>.
\<close>

definition pixel_or_blank :: "image \<Rightarrow> int \<Rightarrow> int \<Rightarrow> pixel" where
  "pixel_or_blank im x y =
     (if 0 \<le> x \<and> x < int (img_width im) \<and> 0 \<le> y \<and> y < int (img_height im)
      then getpixel im (nat x) (nat y) else transparent_pixel)"

definition crop :: "image \<Rightarrow> int \<times> int \<times> int \<times> int \<Rightarrow> py_error + image" where
  "crop im box =
     (case box of (l, u, r, lo) \<Rightarrow>
        if r < l \<or> lo < u then Inl ValueError
        else Inr (make_image (nat (r - l)) (nat (lo - u))
                    (\<lambda>x y. pixel_or_blank im (l + int x) (u + int y))))"

text \<open>\<^verbatim>\<open>PuzzleOptimizer.crop_image_to_bounds\<close> of \<^verbatim>\<open>optimize_puzzle_assets.py\<close>.\<close>

definition crop_image_to_bounds :: "image \<Rightarrow> bounding_box \<Rightarrow> int \<Rightarrow> py_error + image" where
  "crop_image_to_bounds img bounds padding =
     (let padded_left = max 0 (bb_left bounds - padding);
          padded_top = max 0 (bb_top bounds - padding);
          padded_right = min (int (img_width img) - 1) (bb_right bounds + padding);
          padded_bottom = min (int (img_height img) - 1) (bb_bottom bounds + padding);
          crop_box = (padded_left, padded_top, padded_right + 1, padded_bottom + 1)
      in crop img crop_box)"

text \<open>
  \<^verbatim>\<open>PuzzleOptimizer.create_optimized_crop\<close> of \<^verbatim>\<open>optimize_puzzle_assets_fixed.py\<close>, which
  returns a \<^verbatim>\<open>CroppedImageInfo\<close>. (The log lines of the two later scripts are left
  out.)
\<close>

record cropped_image_info =
  cii_cropped_image :: image
  original_content_bounds :: bounding_box
  actual_crop_bounds :: bounding_box
  canvas_position_left :: int
  canvas_position_top :: int

definition create_optimized_crop ::
    "image \<Rightarrow> bounding_box \<Rightarrow> int \<Rightarrow> py_error + cropped_image_info" where
  "create_optimized_crop img content_bounds padding =
     (let crop_left = max 0 (bb_left content_bounds - padding);
          crop_top = max 0 (bb_top content_bounds - padding);
          crop_right = min (int (img_width img)) (bb_right content_bounds + padding + 1);
          crop_bottom = min (int (img_height img)) (bb_bottom content_bounds + padding + 1);
          crop_box = (crop_left, crop_top, crop_right, crop_bottom)
      in case crop img crop_box of
           Inl e \<Rightarrow> Inl e
         | Inr cropped_image \<Rightarrow>
             Inr \<lparr>cii_cropped_image = cropped_image,
                  original_content_bounds = content_bounds,
                  actual_crop_bounds =
                    \<lparr>bb_left = crop_left, bb_top = crop_top,
                     bb_right = crop_right - 1, bb_bottom = crop_bottom - 1\<rparr>,
                  canvas_position_left = crop_left,
                  canvas_position_top = crop_top\<rparr>)"

text \<open>
  \<^verbatim>\<open>PuzzleOptimizer.crop_to_exact_content\<close> of \<^verbatim>\<open>optimize_puzzle_assets_no_padding.py\<close>,
  with its check of the cropped size.
\<close>

definition crop_to_exact_content :: "image \<Rightarrow> bounding_box \<Rightarrow> py_error + image" where
  "crop_to_exact_content img bounds =
     (let crop_box = (bb_left bounds, bb_top bounds, bb_right bounds + 1, bb_bottom bounds + 1)
      in case crop img crop_box of
           Inl e \<Rightarrow> Inl e
         | Inr cropped \<Rightarrow>
             let expected_width = bb_right bounds - bb_left bounds + 1;
                 expected_height = bb_bottom bounds - bb_top bounds + 1
             in if (int (img_width cropped), int (img_height cropped))
                     \<noteq> (expected_width, expected_height)
                then Inl ValueError else Inr cropped)"

section \<open>Content hash\<close>

text \<open>
  \<^verbatim>\<open>image.tobytes()\<close> of an RGBA image is its pixels in row-major order, four bytes
  each. \<^verbatim>\<open>hashlib.sha256(...).hexdigest()\<close> is a parameter \<open>sha256_hexdigest\<close> of the
  model.
\<close>

definition tobytes :: "image \<Rightarrow> 8 word list" where
  "tobytes im = concat (map (\<lambda>p. [red p, green p, blue p, alpha p]) (concat (img_pixels im)))"

definition calculate_content_hash :: "(8 word list \<Rightarrow> string) \<Rightarrow> image \<Rightarrow> string" where
  "calculate_content_hash sha256_hexdigest im = take 8 (sha256_hexdigest (tobytes im))"

section \<open>Optimizing one piece\<close>

text \<open>
  \<^verbatim>\<open>PieceOptimizationResult\<close>. In \<^verbatim>\<open>optimize_puzzle_assets_no_padding.py\<close> the field
  \<open>bounds\<close> is called \<^verbatim>\<open>content_bounds\<close>.
\<close>

record piece_optimization_result =
  piece_id :: string
  original_size :: "nat \<times> nat"
  bounds :: bounding_box
  cropped_image :: image
  content_hash :: string
  memory_saved_bytes :: int

text \<open>
  \<^verbatim>\<open>PuzzleOptimizer.optimize_piece\<close> of \<^verbatim>\<open>optimize_puzzle_assets.py\<close>. A piece file is
  the stem of its path and what \<^verbatim>\<open>Image.open(piece_path).convert('RGBA')\<close> gives:
  the image, or \<open>None\<close> when the file cannot be opened or decoded (an exception).
  \<open>optimize_piece_try\<close> is the body of the \<^verbatim>\<open>try\<close> block, \<open>optimize_piece\<close> adds the
  \<^verbatim>\<open>except Exception\<close> handler, which logs the error and returns \<open>None\<close>.
\<close>

type_synonym piece_file = "string \<times> image option"

definition optimize_piece_try ::
    "(8 word list \<Rightarrow> string) \<Rightarrow> bool \<Rightarrow> piece_file
      \<Rightarrow> log_msg list \<times> (py_error + piece_optimization_result option)" where
  "optimize_piece_try sha256_hexdigest verbose piece_path =
     (let piece_id' = fst piece_path;
          log0 = log_message verbose (Optimizing_piece piece_id')
      in case snd piece_path of
           None \<Rightarrow> (log0, Inl OSError)
         | Some original_image \<Rightarrow>
             let original_size' = (img_width original_image, img_height original_image);
                 original_bytes = int (fst original_size') * int (snd original_size') * 4;
                 (log1, bounds_opt) = find_content_bounds verbose original_image
             in (case bounds_opt of
                  None \<Rightarrow>
                    (log0 @ log1 @ log_message verbose (Warning_no_content piece_id'), Inr None)
                | Some bounds' \<Rightarrow>
                    (case crop_image_to_bounds original_image bounds' 2 of
                       Inl e \<Rightarrow> (log0 @ log1, Inl e)
                     | Inr cropped_image' \<Rightarrow>
                         let cropped_bytes =
                               int (img_width cropped_image') * int (img_height cropped_image') * 4;
                             content_hash' =
                               calculate_content_hash sha256_hexdigest cropped_image';
                             memory_saved = original_bytes - cropped_bytes
                         in if original_bytes = 0 then (log0 @ log1, Inl ZeroDivisionError)
                            else
                              (log0 @ log1
                                 @ log_message verbose
                                     (Original_size (fst original_size') (snd original_size')
                                        original_bytes)
                                 @ log_message verbose
                                     (Cropped_size (img_width cropped_image')
                                        (img_height cropped_image') cropped_bytes)
                                 @ log_message verbose (Saved_bytes memory_saved),
                               Inr (Some \<lparr>piece_id = piece_id',
                                          original_size = original_size',
                                          bounds = bounds',
                                          cropped_image = cropped_image',
                                          content_hash = content_hash',
                                          memory_saved_bytes = memory_saved\<rparr>)))))"

definition optimize_piece ::
    "(8 word list \<Rightarrow> string) \<Rightarrow> bool \<Rightarrow> piece_file
      \<Rightarrow> log_msg list \<times> piece_optimization_result option" where
  "optimize_piece sha256_hexdigest verbose piece_path =
     (case optimize_piece_try sha256_hexdigest verbose piece_path of
        (logged, Inr result) \<Rightarrow> (logged, result)
      | (logged, Inl e) \<Rightarrow>
          (logged @ log_message verbose (Error_optimizing_piece (fst piece_path) e), None))"

section \<open>The metadata document\<close>

text \<open>
  The JSON document of \<^verbatim>\<open>optimization_metadata.json\<close>: one record for each kind of JSON
  object, the \<^verbatim>\<open>pieces\<close> dictionary as a map from piece ids. The keys \<^verbatim>\<open>width\<close> and
  \<^verbatim>\<open>height\<close> occur in two kinds of object and carry a prefix.
  \<^verbatim>\<open>memory_reduction_percent\<close> is a Python float; the model keeps the exact quotient
  as a real number and leaves the rounding of floating point out.
\<close>

record bounds_dict =
  bd_left :: int
  bd_top :: int
  bd_right :: int
  bd_bottom :: int
  bd_width :: int
  bd_height :: int

record size_dict =
  sd_width :: int
  sd_height :: int

record piece_metadata =
  pm_bounds :: bounds_dict
  pm_canvas_size :: size_dict
  pm_content_hash :: string
  pm_cropped_filename :: string

record statistics_dict =
  memory_reduction_percent :: real
  total_pieces :: int
  original_total_bytes :: int
  optimized_total_bytes :: int
  bytes_saved :: int

record optimization_metadata =
  version :: string
  canvas_size :: size_dict
  pieces :: "string \<rightharpoonup> piece_metadata"
  statistics :: statistics_dict

text \<open>
  The canvas information is the dictionary read from \<^verbatim>\<open>layout.ipuz.json\<close>, here with
  integer values; \<^verbatim>\<open>canvas_info['width']\<close> raises \<^verbatim>\<open>KeyError\<close> when the key is missing.
  \<open>canvas_size_of\<close> is the expression
  \<^verbatim>\<open>{"width": int(canvas_info['width']), "height": int(canvas_info['height'])}\<close>.
\<close>

type_synonym canvas_dict = "(string \<times> int) list"

definition dict_item :: "canvas_dict \<Rightarrow> string \<Rightarrow> py_error + int" where
  "dict_item d k = (case map_of d k of None \<Rightarrow> Inl KeyError | Some v \<Rightarrow> Inr v)"

definition canvas_size_of :: "canvas_dict \<Rightarrow> py_error + size_dict" where
  "canvas_size_of canvas_info =
     (case dict_item canvas_info ''width'' of
        Inl e \<Rightarrow> Inl e
      | Inr w \<Rightarrow>
          (case dict_item canvas_info ''height'' of
             Inl e \<Rightarrow> Inl e
           | Inr h \<Rightarrow> Inr \<lparr>sd_width = w, sd_height = h\<rparr>))"

text \<open>
  \<^verbatim>\<open>PuzzleOptimizer._generate_optimization_metadata\<close> of \<^verbatim>\<open>optimize_puzzle_assets.py\<close>:
  the loop over the results, which fills \<^verbatim>\<open>pieces_metadata\<close>, then the document.
\<close>

fun pieces_metadata_loop ::
    "canvas_dict \<Rightarrow> piece_optimization_result list \<Rightarrow> (string \<rightharpoonup> piece_metadata)
      \<Rightarrow> py_error + (string \<rightharpoonup> piece_metadata)" where
  "pieces_metadata_loop canvas_info [] pieces_metadata = Inr pieces_metadata"
| "pieces_metadata_loop canvas_info (result # rest) pieces_metadata =
     (let bounds_dict' =
            \<lparr>bd_left = bb_left (bounds result), bd_top = bb_top (bounds result),
             bd_right = bb_right (bounds result), bd_bottom = bb_bottom (bounds result),
             bd_width = width (bounds result), bd_height = height (bounds result)\<rparr>
      in case canvas_size_of canvas_info of
           Inl e \<Rightarrow> Inl e
         | Inr canvas \<Rightarrow>
             pieces_metadata_loop canvas_info rest
               (pieces_metadata(piece_id result \<mapsto>
                  \<lparr>pm_bounds = bounds_dict', pm_canvas_size = canvas,
                   pm_content_hash = content_hash result,
                   pm_cropped_filename = piece_id result @ ''.png''\<rparr>)))"

definition statistics_of :: "nat \<Rightarrow> int \<Rightarrow> int \<Rightarrow> statistics_dict" where
  "statistics_of n total_original_bytes total_saved_bytes =
     \<lparr>memory_reduction_percent =
        (if total_original_bytes > 0
         then real_of_int total_saved_bytes / real_of_int total_original_bytes * 100
         else 0),
      total_pieces = int n,
      original_total_bytes = total_original_bytes,
      optimized_total_bytes = total_original_bytes - total_saved_bytes,
      bytes_saved = total_saved_bytes\<rparr>"

definition generate_optimization_metadata ::
    "piece_optimization_result list \<Rightarrow> canvas_dict \<Rightarrow> int \<Rightarrow> int
      \<Rightarrow> py_error + optimization_metadata" where
  "generate_optimization_metadata results canvas_info total_original_bytes total_saved_bytes =
     (case pieces_metadata_loop canvas_info results Map.empty of
        Inl e \<Rightarrow> Inl e
      | Inr pieces_metadata \<Rightarrow>
          (case canvas_size_of canvas_info of
             Inl e \<Rightarrow> Inl e
           | Inr canvas \<Rightarrow>
               Inr \<lparr>version = ''1.0'',
                    canvas_size = canvas,
                    pieces = pieces_metadata,
                    statistics =
                      statistics_of (length results) total_original_bytes total_saved_bytes\<rparr>))"

text \<open>
  The same method in \<^verbatim>\<open>optimize_puzzle_assets_no_padding.py\<close>: it compares the size of
  each cropped image with the width and height of its bounds and raises
  \<^verbatim>\<open>ValueError\<close> on a mismatch, and its widths and heights are the inclusive ones.
\<close>

fun pieces_metadata_loop_no_padding ::
    "canvas_dict \<Rightarrow> piece_optimization_result list \<Rightarrow> (string \<rightharpoonup> piece_metadata)
      \<Rightarrow> py_error + (string \<rightharpoonup> piece_metadata)" where
  "pieces_metadata_loop_no_padding canvas_info [] pieces_metadata = Inr pieces_metadata"
| "pieces_metadata_loop_no_padding canvas_info (result # rest) pieces_metadata =
     (let content_bounds = bounds result;
          cropped_image' = cropped_image result;
          actual_width = int (img_width cropped_image');
          actual_height = int (img_height cropped_image');
          expected_width = width_no_padding content_bounds;
          expected_height = height_no_padding content_bounds
      in if actual_width \<noteq> expected_width \<or> actual_height \<noteq> expected_height
         then Inl ValueError
         else
           let bounds_dict' =
                 \<lparr>bd_left = bb_left content_bounds, bd_top = bb_top content_bounds,
                  bd_right = bb_right content_bounds, bd_bottom = bb_bottom content_bounds,
                  bd_width = width_no_padding content_bounds,
                  bd_height = height_no_padding content_bounds\<rparr>
           in case canvas_size_of canvas_info of
                Inl e \<Rightarrow> Inl e
              | Inr canvas \<Rightarrow>
                  pieces_metadata_loop_no_padding canvas_info rest
                    (pieces_metadata(piece_id result \<mapsto>
                       \<lparr>pm_bounds = bounds_dict', pm_canvas_size = canvas,
                        pm_content_hash = content_hash result,
                        pm_cropped_filename = piece_id result @ ''.png''\<rparr>)))"

definition generate_optimization_metadata_no_padding ::
    "piece_optimization_result list \<Rightarrow> canvas_dict \<Rightarrow> int \<Rightarrow> int
      \<Rightarrow> py_error + optimization_metadata" where
  "generate_optimization_metadata_no_padding results canvas_info total_original_bytes
       total_saved_bytes =
     (case pieces_metadata_loop_no_padding canvas_info results Map.empty of
        Inl e \<Rightarrow> Inl e
      | Inr pieces_metadata \<Rightarrow>
          (case canvas_size_of canvas_info of
             Inl e \<Rightarrow> Inl e
           | Inr canvas \<Rightarrow>
               Inr \<lparr>version = ''1.0'',
                    canvas_size = canvas,
                    pieces = pieces_metadata,
                    statistics =
                      statistics_of (length results) total_original_bytes total_saved_bytes\<rparr>))"

section \<open>Optimizing a grid size\<close>

text \<open>
  What \<^verbatim>\<open>optimize_grid_size\<close> reads from the source layout directory: the piece files
  \<^verbatim>\<open>sorted(pieces_path.glob("*.png"))\<close>, \<open>None\<close> when there is no \<^verbatim>\<open>pieces\<close>
  directory, and \<^verbatim>\<open>layout.ipuz.json\<close>: absent, unreadable (not JSON, or not a JSON
  object), an object without the key \<^verbatim>\<open>canvas\<close>, or an object with it.
\<close>

datatype layout_file =
    Layout_absent
  | Layout_unreadable
  | Layout_without_canvas
  | Layout_canvas canvas_dict

record layout_directory =
  piece_files :: "piece_file list option"
  layout_json :: layout_file

text \<open>\<^verbatim>\<open>PuzzleOptimizer._load_canvas_info\<close>.\<close>

definition load_canvas_info :: "bool \<Rightarrow> layout_file \<Rightarrow> log_msg list \<times> canvas_dict" where
  "load_canvas_info verbose layout =
     (case layout of
        Layout_canvas canvas \<Rightarrow> ([], canvas)
      | Layout_without_canvas \<Rightarrow> ([], [(''width'', 2048), (''height'', 2048)])
      | _ \<Rightarrow>
          (log_message verbose Warning_canvas_info, [(''width'', 2048), (''height'', 2048)]))"

text \<open>
  The state of the loop over the piece files: the results so far, the two byte
  counters, the files saved into the optimized \<^verbatim>\<open>pieces\<close> directory (by file name), and
  the log printed by the calls of \<open>optimize_piece\<close>.
\<close>

record loop_state =
  ls_results :: "piece_optimization_result list"
  ls_total_original_bytes :: int
  ls_total_saved_bytes :: int
  ls_saved_files :: "string \<rightharpoonup> image"
  ls_logged :: "log_msg list"

fun process_piece_files ::
    "(8 word list \<Rightarrow> string) \<Rightarrow> bool \<Rightarrow> piece_file list \<Rightarrow> loop_state \<Rightarrow> loop_state" where
  "process_piece_files sha256_hexdigest verbose [] s = s"
| "process_piece_files sha256_hexdigest verbose (piece_file # rest) s =
     (case optimize_piece sha256_hexdigest verbose piece_file of
        (logged, None) \<Rightarrow>
          process_piece_files sha256_hexdigest verbose rest
            (s\<lparr>ls_logged := ls_logged s @ logged\<rparr>)
      | (logged, Some result) \<Rightarrow>
          process_piece_files sha256_hexdigest verbose rest
            (s\<lparr>ls_results := ls_results s @ [result],
               ls_total_original_bytes :=
                 ls_total_original_bytes s
                   + int (fst (original_size result)) * int (snd (original_size result)) * 4,
               ls_total_saved_bytes := ls_total_saved_bytes s + memory_saved_bytes result,
               ls_saved_files :=
                 (ls_saved_files s)(piece_id result @ ''.png'' \<mapsto> cropped_image result),
               ls_logged := ls_logged s @ logged\<rparr>))"

definition initial_loop_state :: loop_state where
  "initial_loop_state =
     \<lparr>ls_results = [], ls_total_original_bytes = 0, ls_total_saved_bytes = 0,
      ls_saved_files = Map.empty, ls_logged = []\<rparr>"

text \<open>
  The outcome of \<^verbatim>\<open>optimize_grid_size\<close>: the piece files and the metadata document it
  wrote, what it returned (or the exception that left it), and the log. The directories
  it creates and its copy of \<^verbatim>\<open>layout.ipuz.json\<close> are not part of the outcome, and every
  write to the disk is taken to succeed.
\<close>

record grid_outcome =
  written_pieces :: "string \<rightharpoonup> image"
  written_metadata :: "optimization_metadata option"
  returned :: "py_error + bool"
  printed :: "log_msg list"

definition optimize_grid_size ::
    "(8 word list \<Rightarrow> string) \<Rightarrow> bool \<Rightarrow> layout_directory \<Rightarrow> grid_outcome" where
  "optimize_grid_size sha256_hexdigest verbose dir =
     (case piece_files dir of
        None \<Rightarrow>
          \<lparr>written_pieces = Map.empty, written_metadata = None, returned = Inr False,
           printed = log_message verbose Error_pieces_directory_not_found\<rparr>
      | Some files \<Rightarrow>
          let log0 = log_message verbose Creating_optimized_layout
                @ (if layout_json dir \<noteq> Layout_absent then log_message verbose Copied_layout
                   else [])
                @ log_message verbose (Processing_pieces (length files));
              s = process_piece_files sha256_hexdigest verbose files initial_loop_state;
              results = ls_results s;
              total_original_bytes = ls_total_original_bytes s;
              total_saved_bytes = ls_total_saved_bytes s
          in if results = [] then
               \<lparr>written_pieces = ls_saved_files s, written_metadata = None,
                returned = Inr False,
                printed = log0 @ ls_logged s @ log_message verbose Error_no_pieces_optimized\<rparr>
             else
               let (log1, canvas_info) = load_canvas_info verbose (layout_json dir)
               in (case generate_optimization_metadata results canvas_info
                         total_original_bytes total_saved_bytes of
                    Inl e \<Rightarrow>
                      \<lparr>written_pieces = ls_saved_files s, written_metadata = None,
                       returned = Inl e, printed = log0 @ ls_logged s @ log1\<rparr>
                  | Inr metadata \<Rightarrow>
                      if total_original_bytes = 0 then
                        \<lparr>written_pieces = ls_saved_files s,
                         written_metadata = Some metadata,
                         returned = Inl ZeroDivisionError,
                         printed = log0 @ ls_logged s @ log1\<rparr>
                      else
                        \<lparr>written_pieces = ls_saved_files s,
                         written_metadata = Some metadata,
                         returned = Inr True,
                         printed = log0 @ ls_logged s @ log1
                           @ log_message verbose Optimization_complete
                           @ log_message verbose (Pieces_optimized (length results))
                           @ log_message verbose (Memory_reduction total_saved_bytes)
                           @ log_message verbose Output_directory\<rparr>))"

section \<open>Notions used in the statements\<close>

text \<open>
  The results the loop of \<open>optimize_grid_size\<close> collects from a list of piece files (those
  of the files for which \<open>optimize_piece\<close> returns a result, in order), and the
  \<^verbatim>\<open>original_size[0] * original_size[1] * 4\<close> bytes of a result.
\<close>

definition collected_results ::
    "(8 word list \<Rightarrow> string) \<Rightarrow> bool \<Rightarrow> piece_file list \<Rightarrow> piece_optimization_result list" where
  "collected_results sha256_hexdigest verbose files =
     List.map_filter (\<lambda>piece_file. snd (optimize_piece sha256_hexdigest verbose piece_file)) files"

definition original_bytes_of :: "piece_optimization_result \<Rightarrow> int" where
  "original_bytes_of result =
     int (fst (original_size result)) * int (snd (original_size result)) * 4"

text \<open>For the concrete examples: a completely transparent image and a digest function.\<close>

definition transparent_image :: "nat \<Rightarrow> nat \<Rightarrow> image" where
  "transparent_image w h = make_image w h (\<lambda>x y. transparent_pixel)"

definition example_digest :: "8 word list \<Rightarrow> string" where
  "example_digest bytes = ''5f2b1c9d00000000000000000000000000000000000000000000000000000000''"

section \<open>Width and height of a bounding box\<close>

lemma img_width_make_image [simp]: "img_width (make_image w h f) = w"
  by (simp add: make_image_def)

lemma img_height_make_image [simp]: "img_height (make_image w h f) = h"
  by (simp add: make_image_def)

lemma wf_make_image [simp]: "wf_image (make_image w h f)"
  by (simp add: wf_image_def make_image_def list_all_iff)

lemma getpixel_make_image [simp]:
  "x < w \<Longrightarrow> y < h \<Longrightarrow> getpixel (make_image w h f) x y = f x y"
  by (simp add: getpixel_def make_image_def)

text \<open>
  The inclusive rule holds of the properties of \<^verbatim>\<open>optimize_puzzle_assets_no_padding.py\<close>.
\<close>

lemma width_height_no_padding_inclusive:
  "width_no_padding b = bb_right b - bb_left b + 1 \<and>
   height_no_padding b = bb_bottom b - bb_top b + 1 \<and>
   width_no_padding \<lparr>bb_left = 50, bb_top = 30, bb_right = 149, bb_bottom = 119\<rparr> = 100 \<and>
   height_no_padding \<lparr>bb_left = 50, bb_top = 30, bb_right = 149, bb_bottom = 119\<rparr> = 90"
  by (simp add: width_no_padding_def height_no_padding_def)

text \<open>
  \<^verbatim>\<open>test_cropping_accuracy\<close> of \<^verbatim>\<open>test_optimization.py\<close> crops a \<open>200 \<times> 200\<close> image to
  the box \<open>(50, 30, 150, 120)\<close> with padding 2 and asserts that the result is
  \<^verbatim>\<open>content_bounds.width + 4\<close> wide and \<^verbatim>\<open>content_bounds.height + 4\<close> high. The crop is
  \<open>105 \<times> 95\<close>, which is what the inclusive width and height give and one more than
  what \<open>width\<close> and \<open>height\<close> of \<^verbatim>\<open>optimize_puzzle_assets.py\<close> give.
\<close>

lemma test_cropping_accuracy_sizes:
  "(\<exists>cropped.
      crop_image_to_bounds (rect_image 200 200 50 30 150 120)
        \<lparr>bb_left = 50, bb_top = 30, bb_right = 150, bb_bottom = 120\<rparr> 2 = Inr cropped \<and>
      int (img_width cropped) = 105 \<and> int (img_height cropped) = 95) \<and>
   width \<lparr>bb_left = 50, bb_top = 30, bb_right = 150, bb_bottom = 120\<rparr> + 4 = 104 \<and>
   height \<lparr>bb_left = 50, bb_top = 30, bb_right = 150, bb_bottom = 120\<rparr> + 4 = 94 \<and>
   width_no_padding \<lparr>bb_left = 50, bb_top = 30, bb_right = 150, bb_bottom = 120\<rparr> + 4 = 105 \<and>
   height_no_padding \<lparr>bb_left = 50, bb_top = 30, bb_right = 150, bb_bottom = 120\<rparr> + 4 = 95"
  by (simp add: crop_image_to_bounds_def crop_def rect_image_def width_def height_def
      width_no_padding_def height_no_padding_def)

text \<open>
  Claim C2: for every bounding box the derived width is \<open>right - left + 1\<close> and the
  derived height is \<open>bottom - top + 1\<close>, so that the box with left 50, top 30, right 149
  and bottom 119 is 100 wide and 90 high. \<^verbatim>\<open>BoundingBox\<close> of
  \<^verbatim>\<open>optimize_puzzle_assets.py\<close> leaves the \<open>+ 1\<close> out: on that box its width is 99 and
  its height is 89.
\<close>

theorem width_height_of_scenario_box:
  "width \<lparr>bb_left = 50, bb_top = 30, bb_right = 149, bb_bottom = 119\<rparr> = 99 \<and>
   height \<lparr>bb_left = 50, bb_top = 30, bb_right = 149, bb_bottom = 119\<rparr> = 89"
  by (simp add: width_def height_def)

section \<open>Bounds detection is tight\<close>

lemma np_argmax_first:
  assumes "list_ex (\<lambda>v. v) bs"
  shows "np_argmax bs < length bs" and "bs ! np_argmax bs"
    and "\<And>j. j < np_argmax bs \<Longrightarrow> \<not> bs ! j"
proof -
  let ?k = "length (takeWhile Not bs)"
  have k: "np_argmax bs = ?k" using assms by (simp add: np_argmax_def)
  from assms obtain v where "v \<in> set bs" "v" by (auto simp: list_ex_iff)
  then have "takeWhile Not bs \<noteq> bs"
    by (metis set_takeWhileD)
  then have lt: "?k < length bs"
    by (metis length_takeWhile_le le_neq_implies_less takeWhile_eq_take take_all_iff nat_less_le)
  show "np_argmax bs < length bs" using k lt by simp
  show "bs ! np_argmax bs" using nth_length_takeWhile[OF lt] k by simp
  fix j assume "j < np_argmax bs"
  then have j: "j < ?k" using k by simp
  then have "takeWhile Not bs ! j \<in> set (takeWhile Not bs)" by simp
  then have "\<not> takeWhile Not bs ! j" by (metis set_takeWhileD)
  then show "\<not> bs ! j" using takeWhile_nth[OF j] by simp
qed

lemma np_argmax_last:
  assumes "list_ex (\<lambda>v. v) bs"
  defines "k \<equiv> length bs - 1 - np_argmax (rev bs)"
  shows "np_argmax (rev bs) < length bs" and "bs ! k"
    and "\<And>j. k < j \<Longrightarrow> j < length bs \<Longrightarrow> \<not> bs ! j"
proof -
  have ex: "list_ex (\<lambda>v. v) (rev bs)" using assms by (simp add: list_ex_iff)
  from np_argmax_first(1)[OF ex] show lt: "np_argmax (rev bs) < length bs" by simp
  from np_argmax_first(2)[OF ex] lt show "bs ! k"
    by (simp add: rev_nth k_def)
  fix j assume j: "k < j" "j < length bs"
  then have "length bs - 1 - j < np_argmax (rev bs)" using lt by (simp add: k_def)
  from np_argmax_first(3)[OF ex this] j show "\<not> bs ! j"
    by (simp add: rev_nth)
qed

lemma row_length:
  "wf_image im \<Longrightarrow> y < img_height im \<Longrightarrow> length (img_pixels im ! y) = img_width im"
  by (simp add: wf_image_def list_all_iff)

lemma row_has_content:
  assumes "wf_image im" "y < img_height im"
  shows "(\<exists>p \<in> set (img_pixels im ! y). 0 < alpha p) = (\<exists>x. content_at im x y)"
proof -
  have len: "length (img_pixels im ! y) = img_width im"
    using assms by (rule row_length)
  show ?thesis
  proof
    assume "\<exists>p \<in> set (img_pixels im ! y). 0 < alpha p"
    then obtain x where "x < length (img_pixels im ! y)" "0 < alpha (img_pixels im ! y ! x)"
      by (auto simp: in_set_conv_nth)
    then have "content_at im x y" using assms len by (simp add: content_at_def getpixel_def)
    then show "\<exists>x. content_at im x y" ..
  next
    assume "\<exists>x. content_at im x y"
    then obtain x where "x < img_width im" "0 < alpha (img_pixels im ! y ! x)"
      by (auto simp: content_at_def getpixel_def)
    then have "img_pixels im ! y ! x \<in> set (img_pixels im ! y)" using len by simp
    then show "\<exists>p \<in> set (img_pixels im ! y). 0 < alpha p"
      using \<open>0 < alpha (img_pixels im ! y ! x)\<close> by blast
  qed
qed

lemma rows_nth:
  assumes "wf_image im" "y < img_height im"
  shows "np_any_axis1 (np_gt0 (alpha_channel im)) ! y = (\<exists>x. content_at im x y)"
proof -
  have "y < length (img_pixels im)" using assms by (simp add: wf_image_def)
  then have "np_any_axis1 (np_gt0 (alpha_channel im)) ! y
      = (\<exists>p \<in> set (img_pixels im ! y). 0 < alpha p)"
    by (simp add: np_any_axis1_def np_gt0_def alpha_channel_def list_ex_iff)
  then show ?thesis using row_has_content[OF assms] by simp
qed

lemma cols_nth:
  assumes "wf_image im" "x < img_width im"
  shows "np_any_axis0 (img_width im) (np_gt0 (alpha_channel im)) ! x = (\<exists>y. content_at im x y)"
proof -
  have "np_any_axis0 (img_width im) (np_gt0 (alpha_channel im)) ! x
      = (\<exists>row \<in> set (img_pixels im). 0 < alpha (row ! x))"
    using assms
    by (auto simp: np_any_axis0_def np_gt0_def alpha_channel_def list_ex_iff wf_image_def
        list_all_iff)
  also have "\<dots> = (\<exists>y. content_at im x y)"
  proof
    assume "\<exists>row \<in> set (img_pixels im). 0 < alpha (row ! x)"
    then obtain y where "y < length (img_pixels im)" "0 < alpha (img_pixels im ! y ! x)"
      by (auto simp: in_set_conv_nth)
    then have "content_at im x y" using assms
      by (simp add: content_at_def getpixel_def wf_image_def)
    then show "\<exists>y. content_at im x y" ..
  next
    assume "\<exists>y. content_at im x y"
    then obtain y where y: "y < img_height im" "0 < alpha (img_pixels im ! y ! x)"
      by (auto simp: content_at_def getpixel_def)
    then have "img_pixels im ! y \<in> set (img_pixels im)"
      using assms by (simp add: wf_image_def)
    then show "\<exists>row \<in> set (img_pixels im). 0 < alpha (row ! x)" using y by blast
  qed
  finally show ?thesis .
qed

lemma list_ex_nth: "list_ex (\<lambda>v. v) bs = (\<exists>i < length bs. bs ! i)"
proof
  assume "list_ex (\<lambda>v. v) bs"
  then obtain v where "v \<in> set bs" and v by (auto simp: list_ex_iff)
  then obtain i where "i < length bs" "bs ! i = v" by (auto simp: in_set_conv_nth)
  with \<open>v\<close> show "\<exists>i < length bs. bs ! i" by blast
next
  assume "\<exists>i < length bs. bs ! i"
  then obtain i where i: "i < length bs" "bs ! i" by blast
  from nth_mem[OF i(1)] i(2) show "list_ex (\<lambda>v. v) bs" unfolding list_ex_iff by blast
qed

lemma length_rows:
  "wf_image im \<Longrightarrow> length (np_any_axis1 (np_gt0 (alpha_channel im))) = img_height im"
  by (simp add: np_any_axis1_def np_gt0_def alpha_channel_def wf_image_def)

lemma length_cols: "length (np_any_axis0 w a) = w"
  by (simp add: np_any_axis0_def)

lemma rows_ex:
  assumes "wf_image im"
  shows "list_ex (\<lambda>v. v) (np_any_axis1 (np_gt0 (alpha_channel im))) = (\<exists>x y. content_at im x y)"
proof -
  have "list_ex (\<lambda>v. v) (np_any_axis1 (np_gt0 (alpha_channel im)))
      = (\<exists>y < img_height im. np_any_axis1 (np_gt0 (alpha_channel im)) ! y)"
    using length_rows[OF assms] by (simp add: list_ex_nth)
  also have "\<dots> = (\<exists>y < img_height im. \<exists>x. content_at im x y)"
    using rows_nth[OF assms] by auto
  also have "\<dots> = (\<exists>x y. content_at im x y)"
    by (auto simp: content_at_def)
  finally show ?thesis .
qed

lemma cols_ex:
  assumes "wf_image im"
  shows "list_ex (\<lambda>v. v) (np_any_axis0 (img_width im) (np_gt0 (alpha_channel im)))
     = (\<exists>x y. content_at im x y)"
proof -
  have "list_ex (\<lambda>v. v) (np_any_axis0 (img_width im) (np_gt0 (alpha_channel im)))
      = (\<exists>x < img_width im. np_any_axis0 (img_width im) (np_gt0 (alpha_channel im)) ! x)"
    using length_cols[of "img_width im" "np_gt0 (alpha_channel im)"] by (simp add: list_ex_nth)
  also have "\<dots> = (\<exists>x < img_width im. \<exists>y. content_at im x y)"
    using cols_nth[OF assms] by auto
  also have "\<dots> = (\<exists>x y. content_at im x y)"
    by (auto simp: content_at_def)
  finally show ?thesis .
qed

lemma np_any_content:
  assumes "wf_image im"
  shows "np_any (np_gt0 (alpha_channel im)) = (\<exists>x y. content_at im x y)"
proof -
  have "np_any (np_gt0 (alpha_channel im))
      = list_ex (\<lambda>v. v) (np_any_axis1 (np_gt0 (alpha_channel im)))"
    by (simp add: np_any_def np_any_axis1_def list_ex_iff)
  then show ?thesis using rows_ex[OF assms] by simp
qed



lemma find_content_bounds_None:
  assumes "wf_image im" "\<not> (\<exists>x y. content_at im x y)"
  shows "find_content_bounds verbose im = (log_message verbose Warning_completely_transparent, None)"
proof -
  have "\<not> np_any (np_gt0 (alpha_channel im))"
    using assms np_any_content[of im] by blast
  then show ?thesis
    unfolding find_content_bounds_def Let_def by (rule if_P)
qed

lemma find_content_bounds_Some:
  assumes wf: "wf_image im" and ex: "\<exists>x y. content_at im x y"
  obtains l t r b where
    "find_content_bounds verbose im =
       ([], Some \<lparr>bb_left = int l, bb_top = int t, bb_right = int r, bb_bottom = int b\<rparr>)"
    "\<And>x y. content_at im x y \<Longrightarrow> l \<le> x \<and> x \<le> r \<and> t \<le> y \<and> y \<le> b"
    "\<exists>x. content_at im x t" "\<exists>x. content_at im x b"
    "\<exists>y. content_at im l y" "\<exists>y. content_at im r y"
proof -
  define rows where "rows = np_any_axis1 (np_gt0 (alpha_channel im))"
  define cols where "cols = np_any_axis0 (img_width im) (np_gt0 (alpha_channel im))"
  define t where "t = np_argmax rows"
  define b where "b = length rows - 1 - np_argmax (rev rows)"
  define l where "l = np_argmax cols"
  define r where "r = length cols - 1 - np_argmax (rev cols)"
  have lr: "length rows = img_height im" using wf by (simp add: rows_def length_rows)
  have lc: "length cols = img_width im" by (simp add: cols_def length_cols)
  have rex: "list_ex (\<lambda>v. v) rows" using wf ex by (simp add: rows_def rows_ex)
  have cex: "list_ex (\<lambda>v. v) cols" using wf ex by (simp add: cols_def cols_ex)
  have rn: "rows ! y = (\<exists>x. content_at im x y)" if "y < img_height im" for y
    using wf that by (simp add: rows_def rows_nth)
  have cn: "cols ! x = (\<exists>y. content_at im x y)" if "x < img_width im" for x
    using wf that by (simp add: cols_def cols_nth)
  have t: "t < img_height im" "rows ! t" "\<And>j. j < t \<Longrightarrow> \<not> rows ! j"
    using np_argmax_first[OF rex] lr by (simp_all add: t_def)
  have b: "np_argmax (rev rows) < img_height im" "rows ! b"
    "\<And>j. b < j \<Longrightarrow> j < img_height im \<Longrightarrow> \<not> rows ! j"
    using np_argmax_last[OF rex] lr by (simp_all add: b_def)
  have l: "l < img_width im" "cols ! l" "\<And>j. j < l \<Longrightarrow> \<not> cols ! j"
    using np_argmax_first[OF cex] lc by (simp_all add: l_def)
  have r: "np_argmax (rev cols) < img_width im" "cols ! r"
    "\<And>j. r < j \<Longrightarrow> j < img_width im \<Longrightarrow> \<not> cols ! j"
    using np_argmax_last[OF cex] lc by (simp_all add: r_def)
  have bh: "b < img_height im" using b(1) lr by (simp add: b_def)
  have rw: "r < img_width im" using r(1) lc by (simp add: r_def)
  have ib: "int (length rows) - 1 - int (np_argmax (rev rows)) = int b"
    using b(1) lr by (simp add: b_def)
  have ir: "int (length cols) - 1 - int (np_argmax (rev cols)) = int r"
    using r(1) lc by (simp add: r_def)
  have eq: "find_content_bounds verbose im =
       ([], Some \<lparr>bb_left = int l, bb_top = int t, bb_right = int r, bb_bottom = int b\<rparr>)"
    using wf ex ib ir
    by (simp add: find_content_bounds_def np_any_content Let_def rows_def cols_def t_def l_def)
  have inside: "l \<le> x \<and> x \<le> r \<and> t \<le> y \<and> y \<le> b" if c: "content_at im x y" for x y
  proof -
    have x: "x < img_width im" and y: "y < img_height im"
      using c by (simp_all add: content_at_def)
    have ry: "rows ! y" using rn[OF y] c by blast
    have cx: "cols ! x" using cn[OF x] c by blast
    have "\<not> y < t" using t(3)[of y] ry by blast
    moreover have "\<not> b < y" using b(3)[of y] ry y by blast
    moreover have "\<not> x < l" using l(3)[of x] cx by blast
    moreover have "\<not> r < x" using r(3)[of x] cx x by blast
    ultimately show ?thesis by simp
  qed
  show thesis
  proof (rule that[OF eq inside])
    show "\<exists>x. content_at im x t" using rn[OF t(1)] t(2) by simp
    show "\<exists>x. content_at im x b" using rn[OF bh] b(2) by simp
    show "\<exists>y. content_at im l y" using cn[OF l(1)] l(2) by simp
    show "\<exists>y. content_at im r y" using cn[OF rw] r(2) by simp
  qed
qed

lemma content_at_alpha:
  "content_at im x y \<longleftrightarrow> x < img_width im \<and> y < img_height im \<and> alpha (getpixel im x y) \<noteq> 0"
  by (simp add: content_at_def word_gt_0)

text \<open>
  Claim C4: for every image with at least one pixel of non-zero alpha,
  \<open>find_content_bounds\<close> returns a box such that every pixel of the image outside the box
  has zero alpha and each of the four edges of the box (its top and bottom rows between
  left and right, its left and right columns between top and bottom) holds a pixel of
  non-zero alpha; for an image whose alpha is zero everywhere it returns \<open>None\<close>.
\<close>

theorem find_content_bounds_tight:
  assumes "wf_image im"
  shows "if \<exists>x y. x < img_width im \<and> y < img_height im \<and> alpha (getpixel im x y) \<noteq> 0
     then \<exists>b. snd (find_content_bounds verbose im) = Some b \<and>
            (\<forall>x y. x < img_width im \<and> y < img_height im \<and>
               (int x < bb_left b \<or> bb_right b < int x \<or> int y < bb_top b \<or> bb_bottom b < int y)
               \<longrightarrow> alpha (getpixel im x y) = 0) \<and>
            (\<exists>x. bb_left b \<le> int x \<and> int x \<le> bb_right b \<and> 0 \<le> bb_top b \<and>
               content_at im x (nat (bb_top b))) \<and>
            (\<exists>x. bb_left b \<le> int x \<and> int x \<le> bb_right b \<and> 0 \<le> bb_bottom b \<and>
               content_at im x (nat (bb_bottom b))) \<and>
            (\<exists>y. bb_top b \<le> int y \<and> int y \<le> bb_bottom b \<and> 0 \<le> bb_left b \<and>
               content_at im (nat (bb_left b)) y) \<and>
            (\<exists>y. bb_top b \<le> int y \<and> int y \<le> bb_bottom b \<and> 0 \<le> bb_right b \<and>
               content_at im (nat (bb_right b)) y)
     else snd (find_content_bounds verbose im) = None"
proof (cases "\<exists>x y. content_at im x y")
  case False
  then show ?thesis
    using find_content_bounds_None[OF assms False, of verbose] by (simp add: content_at_alpha)
next
  case True
  from find_content_bounds_Some[OF assms True, of verbose]
  obtain l t r b where eq: "find_content_bounds verbose im =
       ([], Some \<lparr>bb_left = int l, bb_top = int t, bb_right = int r, bb_bottom = int b\<rparr>)"
    and inside: "\<And>x y. content_at im x y \<Longrightarrow> l \<le> x \<and> x \<le> r \<and> t \<le> y \<and> y \<le> b"
    and edges: "\<exists>x. content_at im x t" "\<exists>x. content_at im x b"
      "\<exists>y. content_at im l y" "\<exists>y. content_at im r y"
    by blast
  let ?b = "\<lparr>bb_left = int l, bb_top = int t, bb_right = int r, bb_bottom = int b\<rparr>"
  have out: "\<forall>x y. x < img_width im \<and> y < img_height im \<and>
               (int x < bb_left ?b \<or> bb_right ?b < int x \<or> int y < bb_top ?b \<or> bb_bottom ?b < int y)
               \<longrightarrow> alpha (getpixel im x y) = 0"
  proof (intro allI impI)
    fix x y
    assume a: "x < img_width im \<and> y < img_height im \<and>
               (int x < bb_left ?b \<or> bb_right ?b < int x \<or> int y < bb_top ?b \<or> bb_bottom ?b < int y)"
    show "alpha (getpixel im x y) = 0"
    proof (rule ccontr)
      assume "alpha (getpixel im x y) \<noteq> 0"
      then have "content_at im x y" using a by (simp add: content_at_alpha)
      from inside[OF this] a show False by simp
    qed
  qed
  have e1: "\<exists>x. bb_left ?b \<le> int x \<and> int x \<le> bb_right ?b \<and> 0 \<le> bb_top ?b \<and>
               content_at im x (nat (bb_top ?b))"
  proof -
    from edges(1) obtain x where c: "content_at im x t" ..
    from inside[OF c] c show ?thesis by (intro exI[of _ x]) simp
  qed
  have e2: "\<exists>x. bb_left ?b \<le> int x \<and> int x \<le> bb_right ?b \<and> 0 \<le> bb_bottom ?b \<and>
               content_at im x (nat (bb_bottom ?b))"
  proof -
    from edges(2) obtain x where c: "content_at im x b" ..
    from inside[OF c] c show ?thesis by (intro exI[of _ x]) simp
  qed
  have e3: "\<exists>y. bb_top ?b \<le> int y \<and> int y \<le> bb_bottom ?b \<and> 0 \<le> bb_left ?b \<and>
               content_at im (nat (bb_left ?b)) y"
  proof -
    from edges(3) obtain y where c: "content_at im l y" ..
    from inside[OF c] c show ?thesis by (intro exI[of _ y]) simp
  qed
  have e4: "\<exists>y. bb_top ?b \<le> int y \<and> int y \<le> bb_bottom ?b \<and> 0 \<le> bb_right ?b \<and>
               content_at im (nat (bb_right ?b)) y"
  proof -
    from edges(4) obtain y where c: "content_at im r y" ..
    from inside[OF c] c show ?thesis by (intro exI[of _ y]) simp
  qed
  have e0: "snd (find_content_bounds verbose im) = Some ?b" using eq by simp
  have cond: "\<exists>x y. x < img_width im \<and> y < img_height im \<and> alpha (getpixel im x y) \<noteq> 0"
    using True by (simp add: content_at_alpha)
  show ?thesis
    unfolding if_P[OF cond]
    by (rule exI[of _ ?b]) (intro conjI e0 out e1 e2 e3 e4)
qed

theorem find_content_bounds_tight_witness:
  "wf_image (rect_image 6 5 2 1 3 3) \<and>
   (\<exists>b. snd (find_content_bounds True (rect_image 6 5 2 1 3 3)) = Some b \<and>
      (\<forall>x y. x < 6 \<and> y < 5 \<and>
         (int x < bb_left b \<or> bb_right b < int x \<or> int y < bb_top b \<or> bb_bottom b < int y)
         \<longrightarrow> alpha (getpixel (rect_image 6 5 2 1 3 3) x y) = 0) \<and>
      (\<exists>x. bb_left b \<le> int x \<and> int x \<le> bb_right b \<and> 0 \<le> bb_top b \<and>
         content_at (rect_image 6 5 2 1 3 3) x (nat (bb_top b))) \<and>
      (\<exists>x. bb_left b \<le> int x \<and> int x \<le> bb_right b \<and> 0 \<le> bb_bottom b \<and>
         content_at (rect_image 6 5 2 1 3 3) x (nat (bb_bottom b))) \<and>
      (\<exists>y. bb_top b \<le> int y \<and> int y \<le> bb_bottom b \<and> 0 \<le> bb_left b \<and>
         content_at (rect_image 6 5 2 1 3 3) (nat (bb_left b)) y) \<and>
      (\<exists>y. bb_top b \<le> int y \<and> int y \<le> bb_bottom b \<and> 0 \<le> bb_right b \<and>
         content_at (rect_image 6 5 2 1 3 3) (nat (bb_right b)) y)) \<and>
   wf_image (make_image 3 2 (\<lambda>x y. transparent_pixel)) \<and>
   snd (find_content_bounds True (make_image 3 2 (\<lambda>x y. transparent_pixel))) = None"
proof -
  let ?im = "rect_image 6 5 2 1 3 3"
  let ?tr = "make_image 3 2 (\<lambda>x y. transparent_pixel)"
  have wf: "wf_image ?im" by (simp add: rect_image_def)
  have w: "img_width ?im = 6" "img_height ?im = 5" by (simp_all add: rect_image_def)
  have "alpha (getpixel ?im 2 1) \<noteq> 0"
    by (simp add: rect_image_def opaque_red_def)
  then have ex: "\<exists>x y. x < 6 \<and> y < 5 \<and> alpha (getpixel ?im x y) \<noteq> 0"
    by (intro exI[of _ 2] exI[of _ 1]) simp
  have wft: "wf_image ?tr" by simp
  have nex: "\<not> (\<exists>x y. x < img_width ?tr \<and> y < img_height ?tr \<and> alpha (getpixel ?tr x y) \<noteq> 0)"
    by (simp add: transparent_pixel_def)
  note t1 = find_content_bounds_tight[OF wf, of True, unfolded w, unfolded if_P[OF ex]]
  note t2 = find_content_bounds_tight[OF wft, of True, unfolded if_not_P[OF nex]]
  from wf t1 wft t2 show ?thesis by (intro conjI)
qed

text \<open>
  Claim C8: two images of equal dimensions whose alpha channels agree pixel for pixel get
  the same result from \<open>find_content_bounds\<close> (box and log), whatever their red, green
  and blue values are.
\<close>

theorem find_content_bounds_alpha_only:
  assumes "wf_image a" and "wf_image b"
    and "img_width a = img_width b" and "img_height a = img_height b"
    and "\<forall>x y. x < img_width a \<and> y < img_height a
           \<longrightarrow> alpha (getpixel a x y) = alpha (getpixel b x y)"
  shows "find_content_bounds verbose a = find_content_bounds verbose b"
proof -
  have "alpha_channel a = alpha_channel b"
    unfolding alpha_channel_def
  proof (rule nth_equalityI)
    show "length (map (map alpha) (img_pixels a)) = length (map (map alpha) (img_pixels b))"
      using assms by (simp add: wf_image_def)
  next
    fix y assume "y < length (map (map alpha) (img_pixels a))"
    then have y: "y < img_height a" "y < img_height b" using assms by (simp_all add: wf_image_def)
    have la: "length (img_pixels a ! y) = img_width a" using assms(1) y(1) by (rule row_length)
    have lb: "length (img_pixels b ! y) = img_width a" using row_length[OF assms(2) y(2)] assms(3) by simp
    have "map alpha (img_pixels a ! y) = map alpha (img_pixels b ! y)"
    proof (rule nth_equalityI)
      show "length (map alpha (img_pixels a ! y)) = length (map alpha (img_pixels b ! y))"
        using la lb by simp
    next
      fix x assume "x < length (map alpha (img_pixels a ! y))"
      then have x: "x < img_width a" using la by simp
      then have "alpha (getpixel a x y) = alpha (getpixel b x y)" using assms(5) y(1) by blast
      then show "map alpha (img_pixels a ! y) ! x = map alpha (img_pixels b ! y) ! x"
        using x la lb by (simp add: getpixel_def)
    qed
    then show "map (map alpha) (img_pixels a) ! y = map (map alpha) (img_pixels b) ! y"
      using y assms(1,2) by (simp add: wf_image_def)
  qed
  with assms(3) show ?thesis unfolding find_content_bounds_def by (simp only:)
qed

theorem find_content_bounds_alpha_only_witness:
  "make_image 2 2 (\<lambda>x y. \<lparr>red = 255, green = 0, blue = 0, alpha = (if x = 0 then 255 else 0)\<rparr>)
     \<noteq> make_image 2 2 (\<lambda>x y. \<lparr>red = 0, green = 128, blue = 255, alpha = (if x = 0 then 255 else 0)\<rparr>) \<and>
   find_content_bounds True
       (make_image 2 2 (\<lambda>x y. \<lparr>red = 255, green = 0, blue = 0, alpha = (if x = 0 then 255 else 0)\<rparr>))
     = find_content_bounds True
         (make_image 2 2 (\<lambda>x y. \<lparr>red = 0, green = 128, blue = 255, alpha = (if x = 0 then 255 else 0)\<rparr>))"
proof -
  let ?a = "make_image 2 2 (\<lambda>x y. \<lparr>red = 255, green = 0, blue = 0, alpha = (if x = 0 then 255 else 0)\<rparr>)"
  let ?b = "make_image 2 2 (\<lambda>x y. \<lparr>red = 0, green = 128, blue = 255, alpha = (if x = 0 then 255 else 0)\<rparr>)"
  have "getpixel ?a 0 0 \<noteq> getpixel ?b 0 0" by simp
  then have ne: "?a \<noteq> ?b" by metis
  have px: "\<forall>x y. x < img_width ?a \<and> y < img_height ?a
           \<longrightarrow> alpha (getpixel ?a x y) = alpha (getpixel ?b x y)" by simp
  have "find_content_bounds True ?a = find_content_bounds True ?b"
    by (rule find_content_bounds_alpha_only[OF _ _ _ _ px]) simp_all
  with ne show ?thesis by blast
qed

section \<open>The crop is the clamped rectangle\<close>

lemma crop_within:
  assumes "0 \<le> l" "l \<le> r" "r \<le> int (img_width img)"
    and "0 \<le> t" "t \<le> b" "b \<le> int (img_height img)"
  shows "\<exists>cropped. crop img (l, t, r, b) = Inr cropped \<and> wf_image cropped \<and>
           int (img_width cropped) = r - l \<and> int (img_height cropped) = b - t \<and>
           (\<forall>x y. x < img_width cropped \<and> y < img_height cropped
              \<longrightarrow> getpixel cropped x y = getpixel img (nat l + x) (nat t + y))"
proof -
  let ?c = "make_image (nat (r - l)) (nat (b - t)) (\<lambda>x y. pixel_or_blank img (l + int x) (t + int y))"
  have eq: "crop img (l, t, r, b) = Inr ?c" using assms by (simp add: crop_def)
  have px: "getpixel ?c x y = getpixel img (nat l + x) (nat t + y)"
    if "x < img_width ?c" "y < img_height ?c" for x y
  proof -
    have x: "x < nat (r - l)" and y: "y < nat (b - t)" using that by simp_all
    have "l + int x < int (img_width img)" "t + int y < int (img_height img)"
      using x y assms by linarith+
    moreover have "nat (l + int x) = nat l + x" "nat (t + int y) = nat t + y"
      using assms by linarith+
    ultimately show ?thesis using x y assms by (simp add: pixel_or_blank_def)
  qed
  have "wf_image ?c" by simp
  moreover have "int (img_width ?c) = r - l" "int (img_height ?c) = b - t" using assms by simp_all
  ultimately show ?thesis using eq px by blast
qed

text \<open>
  Claim C5: for every image, every detected box within the image (\<open>0 \<le> left \<le> right <
  width\<close>, \<open>0 \<le> top \<le> bottom < height\<close>) and every padding \<open>p \<ge> 0\<close>, the crop is exactly
  the pixels of the inclusive rectangle with left \<open>max(0, left - p)\<close>, top
  \<open>max(0, top - p)\<close>, right \<open>min(width - 1, right + p)\<close> and bottom
  \<open>min(height - 1, bottom + p)\<close>, and its dimensions are \<open>right - left + 1\<close> by
  \<open>bottom - top + 1\<close> of that rectangle. This holds of \<open>crop_image_to_bounds\<close> and of
  \<open>create_optimized_crop\<close>, which crops the same image and records that rectangle as
  \<open>actual_crop_bounds\<close> and its corner as the canvas position.
\<close>

theorem crop_exact_rectangle:
  assumes "0 \<le> padding"
    and "0 \<le> bb_left box" and "bb_left box \<le> bb_right box"
    and "bb_right box < int (img_width img)"
    and "0 \<le> bb_top box" and "bb_top box \<le> bb_bottom box"
    and "bb_bottom box < int (img_height img)"
  shows "let l = max 0 (bb_left box - padding);
             t = max 0 (bb_top box - padding);
             r = min (int (img_width img) - 1) (bb_right box + padding);
             b = min (int (img_height img) - 1) (bb_bottom box + padding)
         in \<exists>cropped.
              crop_image_to_bounds img box padding = Inr cropped \<and>
              wf_image cropped \<and>
              int (img_width cropped) = r - l + 1 \<and>
              int (img_height cropped) = b - t + 1 \<and>
              (\<forall>x y. x < img_width cropped \<and> y < img_height cropped
                 \<longrightarrow> getpixel cropped x y = getpixel img (nat l + x) (nat t + y)) \<and>
              (\<exists>info.
                 create_optimized_crop img box padding = Inr info \<and>
                 cii_cropped_image info = cropped \<and>
                 actual_crop_bounds info =
                   \<lparr>bb_left = l, bb_top = t, bb_right = r, bb_bottom = b\<rparr> \<and>
                 canvas_position_left info = l \<and> canvas_position_top info = t)"
proof -
  define l where "l = max 0 (bb_left box - padding)"
  define t where "t = max 0 (bb_top box - padding)"
  define r where "r = min (int (img_width img) - 1) (bb_right box + padding)"
  define b where "b = min (int (img_height img) - 1) (bb_bottom box + padding)"
  have bnd: "0 \<le> l" "l \<le> r + 1" "r + 1 \<le> int (img_width img)"
    "0 \<le> t" "t \<le> b + 1" "b + 1 \<le> int (img_height img)"
    using assms by (simp_all add: l_def t_def r_def b_def)
  from crop_within[OF bnd] obtain cropped where
    c: "crop img (l, t, r + 1, b + 1) = Inr cropped" "wf_image cropped"
      "int (img_width cropped) = r + 1 - l" "int (img_height cropped) = b + 1 - t"
      "\<forall>x y. x < img_width cropped \<and> y < img_height cropped
              \<longrightarrow> getpixel cropped x y = getpixel img (nat l + x) (nat t + y)"
    by blast
  have c1: "crop_image_to_bounds img box padding = Inr cropped"
    using c(1) by (simp add: crop_image_to_bounds_def l_def t_def r_def b_def)
  have r1: "min (int (img_width img)) (bb_right box + padding + 1) = r + 1"
    and b1: "min (int (img_height img)) (bb_bottom box + padding + 1) = b + 1"
    by (simp_all add: r_def b_def)
  have c2: "create_optimized_crop img box padding =
      Inr \<lparr>cii_cropped_image = cropped, original_content_bounds = box,
           actual_crop_bounds = \<lparr>bb_left = l, bb_top = t, bb_right = r, bb_bottom = b\<rparr>,
           canvas_position_left = l, canvas_position_top = t\<rparr>"
    using c(1) unfolding create_optimized_crop_def Let_def r1 b1
    by (simp add: l_def t_def)
  have "\<exists>cropped.
              crop_image_to_bounds img box padding = Inr cropped \<and>
              wf_image cropped \<and>
              int (img_width cropped) = r - l + 1 \<and>
              int (img_height cropped) = b - t + 1 \<and>
              (\<forall>x y. x < img_width cropped \<and> y < img_height cropped
                 \<longrightarrow> getpixel cropped x y = getpixel img (nat l + x) (nat t + y)) \<and>
              (\<exists>info.
                 create_optimized_crop img box padding = Inr info \<and>
                 cii_cropped_image info = cropped \<and>
                 actual_crop_bounds info =
                   \<lparr>bb_left = l, bb_top = t, bb_right = r, bb_bottom = b\<rparr> \<and>
                 canvas_position_left info = l \<and> canvas_position_top info = t)"
    using c1 c2 c(2-5) by (intro exI[of _ cropped]) simp
  then show ?thesis unfolding Let_def l_def t_def r_def b_def .
qed

theorem crop_exact_rectangle_witness:
  "\<exists>cropped.
     crop_image_to_bounds (rect_image 6 5 2 1 3 3)
       \<lparr>bb_left = 2, bb_top = 1, bb_right = 3, bb_bottom = 3\<rparr> 2 = Inr cropped \<and>
     wf_image cropped \<and> img_width cropped = 6 \<and> img_height cropped = 5 \<and>
     getpixel cropped 2 1 = opaque_red \<and>
     (\<exists>info.
        create_optimized_crop (rect_image 6 5 2 1 3 3)
          \<lparr>bb_left = 2, bb_top = 1, bb_right = 3, bb_bottom = 3\<rparr> 2 = Inr info \<and>
        cii_cropped_image info = cropped \<and>
        actual_crop_bounds info = \<lparr>bb_left = 0, bb_top = 0, bb_right = 5, bb_bottom = 4\<rparr>)"
proof -
  let ?im = "rect_image 6 5 2 1 3 3"
  let ?b = "\<lparr>bb_left = 2, bb_top = 1, bb_right = 3, bb_bottom = 3\<rparr>"
  have w: "img_width ?im = 6" "img_height ?im = 5" by (simp_all add: rect_image_def)
  have px: "getpixel ?im 2 1 = opaque_red" by (simp add: rect_image_def)
  have "let l = max 0 (bb_left ?b - 2); t = max 0 (bb_top ?b - 2);
            r = min (int (img_width ?im) - 1) (bb_right ?b + 2);
            b = min (int (img_height ?im) - 1) (bb_bottom ?b + 2)
        in \<exists>cropped.
              crop_image_to_bounds ?im ?b 2 = Inr cropped \<and>
              wf_image cropped \<and>
              int (img_width cropped) = r - l + 1 \<and>
              int (img_height cropped) = b - t + 1 \<and>
              (\<forall>x y. x < img_width cropped \<and> y < img_height cropped
                 \<longrightarrow> getpixel cropped x y = getpixel ?im (nat l + x) (nat t + y)) \<and>
              (\<exists>info.
                 create_optimized_crop ?im ?b 2 = Inr info \<and>
                 cii_cropped_image info = cropped \<and>
                 actual_crop_bounds info =
                   \<lparr>bb_left = l, bb_top = t, bb_right = r, bb_bottom = b\<rparr> \<and>
                 canvas_position_left info = l \<and> canvas_position_top info = t)"
    by (rule crop_exact_rectangle) (simp_all add: rect_image_def)
  then obtain cropped where
    c: "crop_image_to_bounds ?im ?b 2 = Inr cropped" "wf_image cropped"
       "int (img_width cropped) = 6" "int (img_height cropped) = 5"
       "\<forall>x y. x < img_width cropped \<and> y < img_height cropped
                 \<longrightarrow> getpixel cropped x y = getpixel ?im (0 + x) (0 + y)"
       "\<exists>info. create_optimized_crop ?im ?b 2 = Inr info \<and> cii_cropped_image info = cropped \<and>
          actual_crop_bounds info = \<lparr>bb_left = 0, bb_top = 0, bb_right = 5, bb_bottom = 4\<rparr>"
    unfolding Let_def w by auto
  have "getpixel cropped 2 1 = opaque_red" using c(3,4,5) px by simp
  with c show ?thesis by (intro exI[of _ cropped]) simp
qed

section \<open>What \<open>optimize_piece\<close> returns\<close>

lemma optimize_piece_content:
  assumes "find_content_bounds verbose img = (logged, Some box)"
    and "crop_image_to_bounds img box 2 = Inr c"
    and "img_width img * img_height img \<noteq> 0"
  shows "optimize_piece sha verbose (pid, Some img) =
     (log_message verbose (Optimizing_piece pid) @ logged
        @ log_message verbose
            (Original_size (img_width img) (img_height img)
               (int (img_width img) * int (img_height img) * 4))
        @ log_message verbose
            (Cropped_size (img_width c) (img_height c) (int (img_width c) * int (img_height c) * 4))
        @ log_message verbose
            (Saved_bytes (int (img_width img) * int (img_height img) * 4
               - int (img_width c) * int (img_height c) * 4)),
      Some \<lparr>piece_id = pid,
            original_size = (img_width img, img_height img),
            bounds = box,
            cropped_image = c,
            content_hash = calculate_content_hash sha c,
            memory_saved_bytes =
              int (img_width img) * int (img_height img) * 4
                - int (img_width c) * int (img_height c) * 4\<rparr>)"
  using assms by (simp add: optimize_piece_def optimize_piece_try_def Let_def)

lemma optimize_piece_no_content:
  assumes "find_content_bounds verbose img = (logged, None)"
  shows "optimize_piece sha verbose (pid, Some img) =
     (log_message verbose (Optimizing_piece pid) @ logged
        @ log_message verbose (Warning_no_content pid), None)"
  using assms by (simp add: optimize_piece_def optimize_piece_try_def Let_def)

lemma optimize_piece_unreadable:
  "optimize_piece sha verbose (pid, None) =
     (log_message verbose (Optimizing_piece pid)
        @ log_message verbose (Error_optimizing_piece pid OSError), None)"
  by (simp add: optimize_piece_def optimize_piece_try_def Let_def)

lemma optimize_piece_SomeD:
  assumes "snd (optimize_piece sha verbose f) = Some r"
  obtains img where "snd f = Some img"
    and "snd (find_content_bounds verbose img) = Some (bounds r)"
    and "crop_image_to_bounds img (bounds r) 2 = Inr (cropped_image r)"
    and "piece_id r = fst f"
    and "original_size r = (img_width img, img_height img)"
    and "memory_saved_bytes r =
           int (img_width img) * int (img_height img) * 4
             - int (img_width (cropped_image r)) * int (img_height (cropped_image r)) * 4"
    and "img_width img * img_height img \<noteq> 0"
    and "content_hash r = calculate_content_hash sha (cropped_image r)"
  using assms
  by (cases f)
     (auto simp: optimize_piece_def optimize_piece_try_def Let_def
        split: option.splits sum.splits prod.splits if_splits)

lemma crop_image_to_bounds_size:
  assumes "crop_image_to_bounds img box padding = Inr c"
  shows "img_width c \<le> img_width img" and "img_height c \<le> img_height img"
  using assms
  by (auto simp: crop_image_to_bounds_def crop_def Let_def split: if_splits)

section \<open>The loop over the piece files and the outcome of a grid size\<close>

lemma collected_results_Nil [simp]: "collected_results sha verbose [] = []"
  by (simp add: collected_results_def List.map_filter_simps)

lemma collected_results_Cons:
  "collected_results sha verbose (f # files) =
     (case snd (optimize_piece sha verbose f) of
        None \<Rightarrow> collected_results sha verbose files
      | Some r \<Rightarrow> r # collected_results sha verbose files)"
  unfolding collected_results_def by (simp add: List.map_filter_simps)

lemma collected_results_append:
  "collected_results sha verbose (xs @ ys) =
     collected_results sha verbose xs @ collected_results sha verbose ys"
  by (induction xs) (simp_all add: collected_results_Cons split: option.splits)

lemma set_collected_results:
  "set (collected_results sha verbose files) =
     {r. \<exists>f \<in> set files. snd (optimize_piece sha verbose f) = Some r}"
  by (induction files) (auto simp: collected_results_Cons split: option.splits)

lemma process_results:
  "ls_results (process_piece_files sha verbose files s) =
     ls_results s @ collected_results sha verbose files"
  by (induction files arbitrary: s)
     (auto simp: collected_results_Cons split: option.splits prod.splits)

lemma process_total_original_bytes:
  "ls_total_original_bytes (process_piece_files sha verbose files s) =
     ls_total_original_bytes s
       + sum_list (map original_bytes_of (collected_results sha verbose files))"
  by (induction files arbitrary: s)
     (auto simp: collected_results_Cons original_bytes_of_def split: option.splits prod.splits)

lemma process_total_saved_bytes:
  "ls_total_saved_bytes (process_piece_files sha verbose files s) =
     ls_total_saved_bytes s
       + sum_list (map memory_saved_bytes (collected_results sha verbose files))"
  by (induction files arbitrary: s)
     (auto simp: collected_results_Cons split: option.splits prod.splits)

lemma process_saved_files:
  "ls_saved_files (process_piece_files sha verbose files s) =
     foldl (\<lambda>m r. m(piece_id r @ ''.png'' \<mapsto> cropped_image r)) (ls_saved_files s)
       (collected_results sha verbose files)"
  by (induction files arbitrary: s)
     (auto simp: collected_results_Cons split: option.splits prod.splits)

lemma pieces_metadata_loop_canvas:
  assumes "canvas_size_of canvas_info = Inr canvas"
  shows "pieces_metadata_loop canvas_info results pm =
     Inr (foldl (\<lambda>m r. m(piece_id r \<mapsto>
            \<lparr>pm_bounds =
               \<lparr>bd_left = bb_left (bounds r), bd_top = bb_top (bounds r),
                bd_right = bb_right (bounds r), bd_bottom = bb_bottom (bounds r),
                bd_width = width (bounds r), bd_height = height (bounds r)\<rparr>,
             pm_canvas_size = canvas, pm_content_hash = content_hash r,
             pm_cropped_filename = piece_id r @ ''.png''\<rparr>)) pm results)"
  using assms by (induction results arbitrary: pm) (simp_all add: Let_def)

lemma pieces_metadata_loop_no_canvas:
  assumes "canvas_size_of canvas_info = Inl e" and "results \<noteq> []"
  shows "pieces_metadata_loop canvas_info results pm = Inl e"
  using assms by (cases results) (simp_all add: Let_def)

lemma generate_optimization_metadata_canvas:
  assumes "canvas_size_of canvas_info = Inr canvas"
  shows "generate_optimization_metadata results canvas_info tob tsb =
     Inr \<lparr>version = ''1.0'', canvas_size = canvas,
          pieces = foldl (\<lambda>m r. m(piece_id r \<mapsto>
            \<lparr>pm_bounds =
               \<lparr>bd_left = bb_left (bounds r), bd_top = bb_top (bounds r),
                bd_right = bb_right (bounds r), bd_bottom = bb_bottom (bounds r),
                bd_width = width (bounds r), bd_height = height (bounds r)\<rparr>,
             pm_canvas_size = canvas, pm_content_hash = content_hash r,
             pm_cropped_filename = piece_id r @ ''.png''\<rparr>)) Map.empty results,
          statistics = statistics_of (length results) tob tsb\<rparr>"
  using assms
  by (simp add: generate_optimization_metadata_def pieces_metadata_loop_canvas)

lemma generate_optimization_metadata_no_canvas:
  assumes "canvas_size_of canvas_info = Inl e"
  shows "generate_optimization_metadata results canvas_info tob tsb = Inl e"
proof (cases "pieces_metadata_loop canvas_info results Map.empty")
  case (Inl e')
  then have "e' = e" using assms by (cases results) (simp_all add: Let_def)
  then show ?thesis using Inl by (simp add: generate_optimization_metadata_def)
next
  case (Inr pm)
  then show ?thesis using assms by (simp add: generate_optimization_metadata_def)
qed

lemma generate_optimization_metadata_statistics:
  assumes "generate_optimization_metadata results canvas_info tob tsb = Inr m"
  shows "statistics m = statistics_of (length results) tob tsb"
  using assms
  by (auto simp: generate_optimization_metadata_def split: sum.splits)

lemma optimize_grid_size_no_directory:
  assumes "piece_files dir = None"
  shows "optimize_grid_size sha verbose dir =
     \<lparr>written_pieces = Map.empty, written_metadata = None, returned = Inr False,
      printed = log_message verbose Error_pieces_directory_not_found\<rparr>"
  using assms by (simp add: optimize_grid_size_def)

lemma optimize_grid_size_files:
  fixes sha :: "8 word list \<Rightarrow> string" and verbose :: bool
    and dir :: layout_directory and files :: "piece_file list"
  assumes "piece_files dir = Some files"
  defines "rs \<equiv> collected_results sha verbose files"
  defines "tob \<equiv> sum_list (map original_bytes_of rs)"
  defines "tsb \<equiv> sum_list (map memory_saved_bytes rs)"
  defines "gen \<equiv> generate_optimization_metadata rs (snd (load_canvas_info verbose (layout_json dir))) tob tsb"
  shows "written_pieces (optimize_grid_size sha verbose dir) =
       foldl (\<lambda>m r. m(piece_id r @ ''.png'' \<mapsto> cropped_image r)) Map.empty rs"
    and "written_metadata (optimize_grid_size sha verbose dir) =
       (if rs = [] then None else case gen of Inl e \<Rightarrow> None | Inr m \<Rightarrow> Some m)"
    and "returned (optimize_grid_size sha verbose dir) =
       (if rs = [] then Inr False
        else case gen of Inl e \<Rightarrow> Inl e
             | Inr m \<Rightarrow> if tob = 0 then Inl ZeroDivisionError else Inr True)"
proof -
  let ?s = "process_piece_files sha verbose files initial_loop_state"
  have r: "ls_results ?s = rs"
    by (simp add: process_results initial_loop_state_def rs_def)
  have o: "ls_total_original_bytes ?s = tob"
    by (simp add: process_total_original_bytes initial_loop_state_def rs_def tob_def)
  have v: "ls_total_saved_bytes ?s = tsb"
    by (simp add: process_total_saved_bytes initial_loop_state_def rs_def tsb_def)
  have f: "ls_saved_files ?s = foldl (\<lambda>m r. m(piece_id r @ ''.png'' \<mapsto> cropped_image r)) Map.empty rs"
    by (simp add: process_saved_files initial_loop_state_def rs_def)
  show "written_pieces (optimize_grid_size sha verbose dir) =
       foldl (\<lambda>m r. m(piece_id r @ ''.png'' \<mapsto> cropped_image r)) Map.empty rs"
    using assms(1) r o v f
    by (simp add: optimize_grid_size_def Let_def gen_def split: prod.splits sum.splits)
  show "written_metadata (optimize_grid_size sha verbose dir) =
       (if rs = [] then None else case gen of Inl e \<Rightarrow> None | Inr m \<Rightarrow> Some m)"
    using assms(1) r o v f
    by (simp add: optimize_grid_size_def Let_def gen_def split: prod.splits sum.splits)
  show "returned (optimize_grid_size sha verbose dir) =
       (if rs = [] then Inr False
        else case gen of Inl e \<Rightarrow> Inl e
             | Inr m \<Rightarrow> if tob = 0 then Inl ZeroDivisionError else Inr True)"
    using assms(1) r o v f
    by (simp add: optimize_grid_size_def Let_def gen_def split: prod.splits sum.splits)
qed

section \<open>Rectangle images\<close>

lemma content_at_rect_image:
  "content_at (rect_image w h l t r b) x y \<longleftrightarrow>
     x < w \<and> y < h \<and> l \<le> x \<and> x \<le> r \<and> t \<le> y \<and> y \<le> b"
  by (auto simp: content_at_def rect_image_def opaque_red_def transparent_pixel_def split: if_splits)

lemma find_content_bounds_rect:
  assumes "l \<le> r" "r < w" "t \<le> b" "b < h"
  shows "find_content_bounds verbose (rect_image w h l t r b) =
     ([], Some \<lparr>bb_left = int l, bb_top = int t, bb_right = int r, bb_bottom = int b\<rparr>)"
proof -
  let ?im = "rect_image w h l t r b"
  have wf: "wf_image ?im" by (simp add: rect_image_def)
  have c1: "content_at ?im l t" and c2: "content_at ?im r b"
    using assms by (simp_all add: content_at_rect_image)
  then have ex: "\<exists>x y. content_at ?im x y" by blast
  from find_content_bounds_Some[OF wf ex, of verbose]
  obtain l' t' r' b' where eq: "find_content_bounds verbose ?im =
       ([], Some \<lparr>bb_left = int l', bb_top = int t', bb_right = int r', bb_bottom = int b'\<rparr>)"
    and inside: "\<And>x y. content_at ?im x y \<Longrightarrow> l' \<le> x \<and> x \<le> r' \<and> t' \<le> y \<and> y \<le> b'"
    and edges: "\<exists>x. content_at ?im x t'" "\<exists>x. content_at ?im x b'"
      "\<exists>y. content_at ?im l' y" "\<exists>y. content_at ?im r' y"
    by blast
  have "l' \<le> l" "t' \<le> t" using inside[OF c1] by simp_all
  moreover have "r \<le> r'" "b \<le> b'" using inside[OF c2] by simp_all
  moreover have "t \<le> t'" "b' \<le> b" "l \<le> l'" "r' \<le> r"
    using edges by (auto simp: content_at_rect_image)
  ultimately have "l' = l" "t' = t" "r' = r" "b' = b" by simp_all
  with eq show ?thesis by simp
qed

lemma crop_image_to_bounds_eq:
  assumes "0 \<le> padding"
    and "0 \<le> bb_left box" and "bb_left box \<le> bb_right box"
    and "bb_right box < int (img_width img)"
    and "0 \<le> bb_top box" and "bb_top box \<le> bb_bottom box"
    and "bb_bottom box < int (img_height img)"
  shows "crop_image_to_bounds img box padding =
     Inr (make_image
            (nat (min (int (img_width img) - 1) (bb_right box + padding)
                    - max 0 (bb_left box - padding) + 1))
            (nat (min (int (img_height img) - 1) (bb_bottom box + padding)
                    - max 0 (bb_top box - padding) + 1))
            (\<lambda>x y. pixel_or_blank img (max 0 (bb_left box - padding) + int x)
                     (max 0 (bb_top box - padding) + int y)))"
proof -
  let ?l = "max 0 (bb_left box - padding)" and ?t = "max 0 (bb_top box - padding)"
  let ?r = "min (int (img_width img) - 1) (bb_right box + padding)"
  let ?b = "min (int (img_height img) - 1) (bb_bottom box + padding)"
  have ok: "\<not> (?r + 1 < ?l \<or> ?b + 1 < ?t)" using assms by linarith
  have d: "?r + 1 - ?l = ?r - ?l + 1" "?b + 1 - ?t = ?b - ?t + 1" by simp_all
  show ?thesis
    unfolding crop_image_to_bounds_def Let_def crop_def prod.case if_not_P[OF ok] d ..
qed

lemma optimize_piece_rect:
  assumes "l \<le> r" "r < w" "t \<le> b" "b < h"
  shows "\<exists>res. snd (optimize_piece sha verbose (pid, Some (rect_image w h l t r b))) = Some res \<and>
           piece_id res = pid \<and> original_size res = (w, h) \<and>
           bounds res = \<lparr>bb_left = int l, bb_top = int t, bb_right = int r, bb_bottom = int b\<rparr> \<and>
           int (img_width (cropped_image res)) = min (int w - 1) (int r + 2) - max 0 (int l - 2) + 1 \<and>
           int (img_height (cropped_image res)) = min (int h - 1) (int b + 2) - max 0 (int t - 2) + 1"
proof -
  let ?im = "rect_image w h l t r b"
  let ?box = "\<lparr>bb_left = int l, bb_top = int t, bb_right = int r, bb_bottom = int b\<rparr>"
  have w: "img_width ?im = w" "img_height ?im = h" by (simp_all add: rect_image_def)
  have f: "find_content_bounds verbose ?im = ([], Some ?box)"
    using assms by (rule find_content_bounds_rect)
  have c: "crop_image_to_bounds ?im ?box 2 =
     Inr (make_image
            (nat (min (int w - 1) (int r + 2) - max 0 (int l - 2) + 1))
            (nat (min (int h - 1) (int b + 2) - max 0 (int t - 2) + 1))
            (\<lambda>x y. pixel_or_blank ?im (max 0 (int l - 2) + int x) (max 0 (int t - 2) + int y)))"
    using crop_image_to_bounds_eq[of 2 ?box ?im] assms by (simp add: w)
  have nz: "img_width ?im * img_height ?im \<noteq> 0" using assms by (simp add: w)
  show ?thesis
    unfolding optimize_piece_content[OF f c nz]
    using assms by (simp add: w)
qed

section \<open>Savings are never negative\<close>

lemma optimize_piece_result_bounds:
  assumes "snd (optimize_piece sha verbose f) = Some r"
  shows "img_width (cropped_image r) \<le> fst (original_size r)"
    and "img_height (cropped_image r) \<le> snd (original_size r)"
    and "0 \<le> memory_saved_bytes r"
    and "memory_saved_bytes r \<le> original_bytes_of r"
    and "0 < original_bytes_of r"
    and "memory_saved_bytes r =
           original_bytes_of r
             - int (img_width (cropped_image r)) * int (img_height (cropped_image r)) * 4"
proof -
  from optimize_piece_SomeD[OF assms] obtain img where
    crop: "crop_image_to_bounds img (bounds r) 2 = Inr (cropped_image r)"
    and sz: "original_size r = (img_width img, img_height img)"
    and saved: "memory_saved_bytes r =
           int (img_width img) * int (img_height img) * 4
             - int (img_width (cropped_image r)) * int (img_height (cropped_image r)) * 4"
    and nz: "img_width img * img_height img \<noteq> 0"
    by blast
  from crop_image_to_bounds_size[OF crop]
  have le: "img_width (cropped_image r) \<le> img_width img"
    "img_height (cropped_image r) \<le> img_height img" .
  show "img_width (cropped_image r) \<le> fst (original_size r)"
    and "img_height (cropped_image r) \<le> snd (original_size r)"
    using le sz by simp_all
  have "img_width (cropped_image r) * img_height (cropped_image r)
      \<le> img_width img * img_height img"
    using le by (rule mult_le_mono)
  then have m: "int (img_width (cropped_image r)) * int (img_height (cropped_image r))
      \<le> int (img_width img) * int (img_height img)"
    by (metis of_nat_mult of_nat_le_iff)
  show "0 \<le> memory_saved_bytes r" using m saved by simp
  show "memory_saved_bytes r \<le> original_bytes_of r"
    using saved sz by (simp add: original_bytes_of_def)
  have "0 < img_width img * img_height img" using nz by simp
  then have "0 < int (img_width img) * int (img_height img)"
    by (metis of_nat_mult of_nat_0_less_iff)
  then show "0 < original_bytes_of r" using sz by (simp add: original_bytes_of_def)
  show "memory_saved_bytes r =
           original_bytes_of r
             - int (img_width (cropped_image r)) * int (img_height (cropped_image r)) * 4"
    using saved sz by (simp add: original_bytes_of_def)
qed

lemma collected_results_bounds:
  assumes "r \<in> set (collected_results sha verbose files)"
  shows "0 \<le> memory_saved_bytes r" and "memory_saved_bytes r \<le> original_bytes_of r"
    and "0 < original_bytes_of r"
proof -
  from assms obtain f where "snd (optimize_piece sha verbose f) = Some r"
    by (auto simp: set_collected_results)
  from optimize_piece_result_bounds(3-5)[OF this]
  show "0 \<le> memory_saved_bytes r" and "memory_saved_bytes r \<le> original_bytes_of r"
    and "0 < original_bytes_of r" .
qed

lemma collected_totals:
  fixes sha :: "8 word list \<Rightarrow> string"
  defines "tob rs \<equiv> sum_list (map original_bytes_of rs)"
  defines "tsb rs \<equiv> sum_list (map memory_saved_bytes rs)"
  shows "0 \<le> tsb (collected_results sha verbose files)"
    and "tsb (collected_results sha verbose files) \<le> tob (collected_results sha verbose files)"
    and "collected_results sha verbose files \<noteq> [] \<Longrightarrow> 0 < tob (collected_results sha verbose files)"
proof -
  let ?rs = "collected_results sha verbose files"
  show "0 \<le> tsb ?rs" unfolding tsb_def
    by (rule sum_list_nonneg) (auto dest: collected_results_bounds(1))
  show "tsb ?rs \<le> tob ?rs" unfolding tsb_def tob_def
    by (rule sum_list_mono) (rule collected_results_bounds(2))
  assume ne: "?rs \<noteq> []"
  then obtain r rest where rs: "?rs = r # rest" by (cases ?rs) auto
  then have "0 < original_bytes_of r" using collected_results_bounds(3)[of r sha verbose files] by simp
  moreover have "0 \<le> sum_list (map original_bytes_of rest)"
  proof (rule sum_list_nonneg)
    fix x assume "x \<in> set (map original_bytes_of rest)"
    then obtain r' where "r' \<in> set ?rs" "x = original_bytes_of r'" using rs by auto
    then show "0 \<le> x" using collected_results_bounds(3)[of r' sha verbose files] by simp
  qed
  ultimately show "0 < tob ?rs" unfolding tob_def rs by simp
qed

lemma grid_metadata_written:
  assumes "piece_files dir = Some files"
    and "collected_results sha verbose files \<noteq> []"
    and "canvas_size_of (snd (load_canvas_info verbose (layout_json dir))) = Inr canvas"
  shows "returned (optimize_grid_size sha verbose dir) = Inr True"
    and "\<exists>m. written_metadata (optimize_grid_size sha verbose dir) = Some m"
proof -
  let ?rs = "collected_results sha verbose files"
  have pos: "sum_list (map original_bytes_of ?rs) \<noteq> 0"
    using collected_totals(3)[OF assms(2)] by simp
  show "returned (optimize_grid_size sha verbose dir) = Inr True"
    unfolding optimize_grid_size_files(3)[OF assms(1)]
    using assms(2) pos by (simp add: generate_optimization_metadata_canvas[OF assms(3)])
  show "\<exists>m. written_metadata (optimize_grid_size sha verbose dir) = Some m"
    unfolding optimize_grid_size_files(2)[OF assms(1)]
    using assms(2) by (simp add: generate_optimization_metadata_canvas[OF assms(3)])
qed

lemma canvas_size_of_default:
  assumes "\<And>c. layout \<noteq> Layout_canvas c"
  shows "canvas_size_of (snd (load_canvas_info verbose layout)) =
     Inr \<lparr>sd_width = 2048, sd_height = 2048\<rparr>"
  using assms
  by (cases layout) (auto simp: load_canvas_info_def canvas_size_of_def dict_item_def)

lemma sum_list_const:
  fixes f :: "'a \<Rightarrow> int"
  shows "(\<And>x. x \<in> set xs \<Longrightarrow> f x = c) \<Longrightarrow> sum_list (map f xs) = c * int (length xs)"
  by (induction xs) (simp_all add: algebra_simps)

lemma length_collected_results:
  "(\<And>f. f \<in> set files \<Longrightarrow> snd (optimize_piece sha verbose f) \<noteq> None) \<Longrightarrow>
     length (collected_results sha verbose files) = length files"
  by (induction files) (auto simp: collected_results_Cons split: option.splits)

text \<open>
  Claim C10: for every successfully optimized piece the cropped image is no wider and no
  higher than the original image, so \<open>memory_saved_bytes\<close> is not negative; and in the
  statistics of every batch \<open>0 \<le> bytes_saved \<le> original_total_bytes\<close> and
  \<open>optimized_total_bytes \<le> original_total_bytes\<close>.
\<close>

theorem cropped_within_original:
  "(snd (optimize_piece sha verbose f) = Some r \<longrightarrow>
      img_width (cropped_image r) \<le> fst (original_size r) \<and>
      img_height (cropped_image r) \<le> snd (original_size r) \<and>
      0 \<le> memory_saved_bytes r) \<and>
   (written_metadata (optimize_grid_size sha verbose dir) = Some m \<longrightarrow>
      0 \<le> bytes_saved (statistics m) \<and>
      bytes_saved (statistics m) \<le> original_total_bytes (statistics m) \<and>
      optimized_total_bytes (statistics m) \<le> original_total_bytes (statistics m))"
proof (intro conjI impI)
  assume a: "snd (optimize_piece sha verbose f) = Some r"
  show "img_width (cropped_image r) \<le> fst (original_size r)"
    and "img_height (cropped_image r) \<le> snd (original_size r)"
    and "0 \<le> memory_saved_bytes r"
    using optimize_piece_result_bounds(1-3)[OF a] .
next
  assume a: "written_metadata (optimize_grid_size sha verbose dir) = Some m"
  then obtain files where files: "piece_files dir = Some files"
    by (cases "piece_files dir") (simp_all add: optimize_grid_size_no_directory)
  let ?rs = "collected_results sha verbose files"
  let ?tob = "sum_list (map original_bytes_of ?rs)"
  let ?tsb = "sum_list (map memory_saved_bytes ?rs)"
  from a optimize_grid_size_files(2)[OF files, of sha verbose]
  have "generate_optimization_metadata ?rs (snd (load_canvas_info verbose (layout_json dir)))
          ?tob ?tsb = Inr m"
    by (auto split: if_splits sum.splits)
  then have st: "statistics m = statistics_of (length ?rs) ?tob ?tsb"
    by (rule generate_optimization_metadata_statistics)
  show "0 \<le> bytes_saved (statistics m)"
    and "bytes_saved (statistics m) \<le> original_total_bytes (statistics m)"
    and "optimized_total_bytes (statistics m) \<le> original_total_bytes (statistics m)"
    using collected_totals(1,2)[of sha verbose files] st by (simp_all add: statistics_of_def)
qed

theorem cropped_within_original_witness:
  "\<exists>r m.
     snd (optimize_piece example_digest True
            (''0_0'', Some (rect_image 400 400 50 30 149 119))) = Some r \<and>
     img_width (cropped_image r) \<le> fst (original_size r) \<and>
     img_height (cropped_image r) \<le> snd (original_size r) \<and>
     0 \<le> memory_saved_bytes r \<and>
     written_metadata
       (optimize_grid_size example_digest True
          \<lparr>piece_files = Some [(''0_0'', Some (rect_image 400 400 50 30 149 119))],
           layout_json = Layout_absent\<rparr>) = Some m \<and>
     0 \<le> bytes_saved (statistics m) \<and>
     bytes_saved (statistics m) \<le> original_total_bytes (statistics m) \<and>
     optimized_total_bytes (statistics m) \<le> original_total_bytes (statistics m)"
proof -
  let ?f = "(''0_0'', Some (rect_image 400 400 50 30 149 119))"
  let ?d = "\<lparr>piece_files = Some [?f], layout_json = Layout_absent\<rparr>"
  from optimize_piece_rect[of 50 149 400 30 119 400 example_digest True "''0_0''"]
  obtain r where r: "snd (optimize_piece example_digest True ?f) = Some r" by auto
  have ne: "collected_results example_digest True [?f] \<noteq> []"
    using r by (simp add: collected_results_Cons)
  have cv: "canvas_size_of (snd (load_canvas_info True (layout_json ?d)))
      = Inr \<lparr>sd_width = 2048, sd_height = 2048\<rparr>"
    by (rule canvas_size_of_default) simp
  from grid_metadata_written(2)[of ?d "[?f]" example_digest True, OF _ ne cv]
  obtain m where m: "written_metadata (optimize_grid_size example_digest True ?d) = Some m"
    by auto
  from cropped_within_original[of example_digest True ?f r ?d m] r m
  show ?thesis by blast
qed


section \<open>Batch statistics\<close>

text \<open>
  Claim C6: in the statistics of a metadata document, \<open>memory_reduction_percent\<close> is
  \<open>bytes_saved / original_total_bytes * 100\<close> when \<open>original_total_bytes > 0\<close> and \<open>0\<close>
  when \<open>original_total_bytes = 0\<close>, and \<open>optimized_total_bytes\<close> is
  \<open>original_total_bytes - bytes_saved\<close>; and for a batch of four pieces, each reduced
  from \<open>400 \<times> 400\<close> to \<open>100 \<times> 90\<close>, \<open>total_pieces\<close> is 4, \<open>original_total_bytes\<close> is
  \<open>4 * 400 * 400 * 4\<close>, \<open>optimized_total_bytes\<close> is \<open>4 * 100 * 90 * 4\<close> and the percentage is
  the per-piece ratio. The percentage is the exact quotient (a real number).
\<close>

theorem batch_statistics:
  "(generate_optimization_metadata results canvas_info total_original_bytes total_saved_bytes
      = Inr m \<longrightarrow>
      original_total_bytes (statistics m) = total_original_bytes \<and>
      bytes_saved (statistics m) = total_saved_bytes \<and>
      (0 < original_total_bytes (statistics m) \<longrightarrow>
         memory_reduction_percent (statistics m) =
           real_of_int (bytes_saved (statistics m))
             / real_of_int (original_total_bytes (statistics m)) * 100) \<and>
      (original_total_bytes (statistics m) = 0 \<longrightarrow>
         memory_reduction_percent (statistics m) = 0) \<and>
      optimized_total_bytes (statistics m) =
        original_total_bytes (statistics m) - bytes_saved (statistics m)) \<and>
   (piece_files dir = Some files \<and> length files = 4 \<and>
    (\<forall>f \<in> set files. \<exists>r.
        snd (optimize_piece sha verbose f) = Some r \<and> original_size r = (400, 400) \<and>
        img_width (cropped_image r) = 100 \<and> img_height (cropped_image r) = 90) \<and>
    written_metadata (optimize_grid_size sha verbose dir) = Some m' \<longrightarrow>
      total_pieces (statistics m') = 4 \<and>
      original_total_bytes (statistics m') = 4 * 400 * 400 * 4 \<and>
      optimized_total_bytes (statistics m') = 4 * 100 * 90 * 4 \<and>
      memory_reduction_percent (statistics m') =
        real_of_int (400 * 400 - 100 * 90) / real_of_int (400 * 400) * 100)"
proof (rule conjI; rule impI)
  assume "generate_optimization_metadata results canvas_info total_original_bytes
            total_saved_bytes = Inr m"
  then have st: "statistics m =
      statistics_of (length results) total_original_bytes total_saved_bytes"
    by (rule generate_optimization_metadata_statistics)
  show "original_total_bytes (statistics m) = total_original_bytes \<and>
      bytes_saved (statistics m) = total_saved_bytes \<and>
      (0 < original_total_bytes (statistics m) \<longrightarrow>
         memory_reduction_percent (statistics m) =
           real_of_int (bytes_saved (statistics m))
             / real_of_int (original_total_bytes (statistics m)) * 100) \<and>
      (original_total_bytes (statistics m) = 0 \<longrightarrow>
         memory_reduction_percent (statistics m) = 0) \<and>
      optimized_total_bytes (statistics m) =
        original_total_bytes (statistics m) - bytes_saved (statistics m)"
    unfolding st by (simp add: statistics_of_def)
next
  assume a: "piece_files dir = Some files \<and> length files = 4 \<and>
    (\<forall>f \<in> set files. \<exists>r.
        snd (optimize_piece sha verbose f) = Some r \<and> original_size r = (400, 400) \<and>
        img_width (cropped_image r) = 100 \<and> img_height (cropped_image r) = 90) \<and>
    written_metadata (optimize_grid_size sha verbose dir) = Some m'"
  let ?rs = "collected_results sha verbose files"
  let ?tob = "sum_list (map original_bytes_of ?rs)"
  let ?tsb = "sum_list (map memory_saved_bytes ?rs)"
  from a have files: "piece_files dir = Some files" and len: "length files = 4"
    and each: "\<And>f. f \<in> set files \<Longrightarrow> \<exists>r.
        snd (optimize_piece sha verbose f) = Some r \<and> original_size r = (400, 400) \<and>
        img_width (cropped_image r) = 100 \<and> img_height (cropped_image r) = 90"
    and m': "written_metadata (optimize_grid_size sha verbose dir) = Some m'"
    by blast+
  have n: "length ?rs = 4"
    using length_collected_results[of files sha verbose] each len by fastforce
  have rs: "original_bytes_of r = 640000 \<and> memory_saved_bytes r = 604000"
    if "r \<in> set ?rs" for r
  proof -
    from that obtain f where f: "f \<in> set files" "snd (optimize_piece sha verbose f) = Some r"
      by (auto simp: set_collected_results)
    from each[OF f(1)] f(2) have sz: "original_size r = (400, 400)"
      "img_width (cropped_image r) = 100" "img_height (cropped_image r) = 90" by auto
    from optimize_piece_result_bounds(6)[OF f(2)] sz
    show ?thesis by (simp add: original_bytes_of_def)
  qed
  have tob: "?tob = 2560000" using sum_list_const[of ?rs original_bytes_of 640000] rs n by simp
  have tsb: "?tsb = 2416000" using sum_list_const[of ?rs memory_saved_bytes 604000] rs n by simp
  from m' optimize_grid_size_files(2)[OF files, of sha verbose]
  have "generate_optimization_metadata ?rs (snd (load_canvas_info verbose (layout_json dir)))
          ?tob ?tsb = Inr m'"
    by (auto split: if_splits sum.splits)
  then have st: "statistics m' = statistics_of 4 2560000 2416000"
    using generate_optimization_metadata_statistics n tob tsb by metis
  show "total_pieces (statistics m') = 4 \<and>
      original_total_bytes (statistics m') = 4 * 400 * 400 * 4 \<and>
      optimized_total_bytes (statistics m') = 4 * 100 * 90 * 4 \<and>
      memory_reduction_percent (statistics m') =
        real_of_int (400 * 400 - 100 * 90) / real_of_int (400 * 400) * 100"
    unfolding st by (simp add: statistics_of_def)
qed

theorem batch_statistics_witness:
  "\<exists>m0 m1 m.
     generate_optimization_metadata [] [(''width'', 2048), (''height'', 2048)] 0 0 = Inr m0 \<and>
     memory_reduction_percent (statistics m0) = 0 \<and>
     optimized_total_bytes (statistics m0) = 0 \<and>
     generate_optimization_metadata [] [(''width'', 2048), (''height'', 2048)] 640000 604000
       = Inr m1 \<and>
     memory_reduction_percent (statistics m1) = 94.375 \<and>
     optimized_total_bytes (statistics m1) = 36000 \<and>
     written_metadata
       (optimize_grid_size example_digest False
          \<lparr>piece_files =
             Some [(''0_0'', Some (rect_image 400 400 52 32 147 117)),
                   (''0_1'', Some (rect_image 400 400 52 32 147 117)),
                   (''1_0'', Some (rect_image 400 400 52 32 147 117)),
                   (''1_1'', Some (rect_image 400 400 52 32 147 117))],
           layout_json = Layout_canvas [(''width'', 400), (''height'', 400)]\<rparr>) = Some m \<and>
     total_pieces (statistics m) = 4 \<and>
     original_total_bytes (statistics m) = 2560000 \<and>
     optimized_total_bytes (statistics m) = 144000 \<and>
     memory_reduction_percent (statistics m) = 94.375"
proof -
  let ?P = "rect_image 400 400 52 32 147 117"
  let ?files = "[(''0_0'', Some ?P), (''0_1'', Some ?P), (''1_0'', Some ?P), (''1_1'', Some ?P)]"
  let ?d = "\<lparr>piece_files = Some ?files,
             layout_json = Layout_canvas [(''width'', 400), (''height'', 400)]\<rparr>"
  let ?c = "[(''width'', 2048), (''height'', 2048)] :: canvas_dict"
  have cs: "canvas_size_of ?c = Inr \<lparr>sd_width = 2048, sd_height = 2048\<rparr>"
    by (simp add: canvas_size_of_def dict_item_def)
  obtain m0 where m0: "generate_optimization_metadata [] ?c 0 0 = Inr m0"
    using generate_optimization_metadata_canvas[OF cs] by blast
  obtain m1 where m1: "generate_optimization_metadata [] ?c 640000 604000 = Inr m1"
    using generate_optimization_metadata_canvas[OF cs] by blast
  have piece: "\<exists>r. snd (optimize_piece example_digest False (pid, Some ?P)) = Some r \<and>
      original_size r = (400, 400) \<and>
      img_width (cropped_image r) = 100 \<and> img_height (cropped_image r) = 90" for pid
    using optimize_piece_rect[of 52 147 400 32 117 400 example_digest False pid] by auto
  have each: "\<forall>f \<in> set ?files. \<exists>r.
        snd (optimize_piece example_digest False f) = Some r \<and> original_size r = (400, 400) \<and>
        img_width (cropped_image r) = 100 \<and> img_height (cropped_image r) = 90"
    using piece by simp
  have ne: "collected_results example_digest False ?files \<noteq> []"
    using piece[of "''0_0''"] by (auto simp: collected_results_Cons)
  have cv: "canvas_size_of (snd (load_canvas_info False (layout_json ?d)))
      = Inr \<lparr>sd_width = 400, sd_height = 400\<rparr>"
    by (simp add: load_canvas_info_def canvas_size_of_def dict_item_def)
  from grid_metadata_written(2)[of ?d ?files example_digest False, OF _ ne cv]
  obtain m where m: "written_metadata (optimize_grid_size example_digest False ?d) = Some m"
    by auto
  have d: "piece_files ?d = Some ?files \<and> length ?files = 4" by simp
  from batch_statistics[of "[]" ?c 0 0 m0 ?d ?files example_digest False m] m0 d each m
  have a: "memory_reduction_percent (statistics m0) = 0"
    "optimized_total_bytes (statistics m0) = 0"
    "total_pieces (statistics m) = 4"
    "original_total_bytes (statistics m) = 2560000"
    "optimized_total_bytes (statistics m) = 144000"
    "memory_reduction_percent (statistics m) = 94.375"
    by simp_all
  from batch_statistics[of "[]" ?c 640000 604000 m1 ?d ?files example_digest False m] m1
  have b: "memory_reduction_percent (statistics m1) = 94.375"
    "optimized_total_bytes (statistics m1) = 36000"
    by simp_all
  from m0 m1 m a b show ?thesis by blast
qed

section \<open>Transparent pieces\<close>

lemma find_content_bounds_transparent:
  assumes "wf_image img"
    and "\<forall>x y. x < img_width img \<and> y < img_height img \<longrightarrow> alpha (getpixel img x y) = 0"
  shows "find_content_bounds verbose img =
     (log_message verbose Warning_completely_transparent, None)"
proof -
  have "\<not> (\<exists>x y. content_at img x y)" using assms(2) by (auto simp: content_at_alpha)
  with assms(1) show ?thesis by (rule find_content_bounds_None)
qed

lemma collected_results_skip:
  assumes "snd (optimize_piece sha verbose f) = None"
  shows "collected_results sha verbose (before @ f # after) =
     collected_results sha verbose (before @ after)"
  using assms by (simp add: collected_results_append collected_results_Cons)

lemma optimize_grid_size_same_results:
  assumes "collected_results sha verbose files = collected_results sha verbose files'"
  shows "written_pieces (optimize_grid_size sha verbose
             \<lparr>piece_files = Some files, layout_json = layout\<rparr>) =
         written_pieces (optimize_grid_size sha verbose
             \<lparr>piece_files = Some files', layout_json = layout\<rparr>)"
    and "written_metadata (optimize_grid_size sha verbose
             \<lparr>piece_files = Some files, layout_json = layout\<rparr>) =
         written_metadata (optimize_grid_size sha verbose
             \<lparr>piece_files = Some files', layout_json = layout\<rparr>)"
    and "returned (optimize_grid_size sha verbose
             \<lparr>piece_files = Some files, layout_json = layout\<rparr>) =
         returned (optimize_grid_size sha verbose
             \<lparr>piece_files = Some files', layout_json = layout\<rparr>)"
proof -
  let ?d = "\<lparr>piece_files = Some files, layout_json = layout\<rparr>"
  let ?d' = "\<lparr>piece_files = Some files', layout_json = layout\<rparr>"
  have d: "piece_files ?d = Some files" and d': "piece_files ?d' = Some files'" by simp_all
  show "written_pieces (optimize_grid_size sha verbose ?d) =
         written_pieces (optimize_grid_size sha verbose ?d')"
    unfolding optimize_grid_size_files(1)[OF d] optimize_grid_size_files(1)[OF d'] assms ..
  show "written_metadata (optimize_grid_size sha verbose ?d) =
         written_metadata (optimize_grid_size sha verbose ?d')"
    unfolding optimize_grid_size_files(2)[OF d] optimize_grid_size_files(2)[OF d'] assms
    by simp
  show "returned (optimize_grid_size sha verbose ?d) =
         returned (optimize_grid_size sha verbose ?d')"
    unfolding optimize_grid_size_files(3)[OF d] optimize_grid_size_files(3)[OF d'] assms
    by simp
qed

text \<open>
  Claim C7 says that a fully transparent piece is skipped with a warning. The two warnings
  go through \<^verbatim>\<open>self.log\<close>, which prints only when the optimizer is verbose: with
  \<^verbatim>\<open>verbose=False\<close> (the default of the command line) the piece is skipped and nothing
  is printed.
\<close>

theorem transparent_piece_silent:
  "optimize_piece example_digest False (''0_0'', Some (transparent_image 4 4)) = ([], None)"
proof -
  have "find_content_bounds False (transparent_image 4 4) =
      (log_message False Warning_completely_transparent, None)"
    by (rule find_content_bounds_transparent)
       (simp_all add: transparent_image_def transparent_pixel_def)
  from optimize_piece_no_content[OF this, of example_digest "''0_0''"]
  show ?thesis by (simp add: log_message_def)
qed

text \<open>
  Claim C7, amended: for every fully transparent source image \<open>optimize_piece\<close> returns
  no result and prints, when the optimizer is verbose, the two warnings (and nothing
  when it is not); and the outcome of \<open>optimize_grid_size\<close> for a directory that holds such
  a piece is the outcome for the directory without it: the same written piece files, the
  same metadata document (pieces map and statistics) and the same return value, so the
  piece adds no output file, no metadata entry, nothing to the statistics, and does not
  make the grid size fail.
\<close>

theorem transparent_piece_skipped:
  assumes "wf_image img"
    and "\<forall>x y. x < img_width img \<and> y < img_height img \<longrightarrow> alpha (getpixel img x y) = 0"
  shows "optimize_piece sha verbose (pid, Some img) =
       (log_message verbose (Optimizing_piece pid)
          @ log_message verbose Warning_completely_transparent
          @ log_message verbose (Warning_no_content pid), None) \<and>
     written_pieces (optimize_grid_size sha verbose
         \<lparr>piece_files = Some (before @ (pid, Some img) # after), layout_json = layout\<rparr>) =
       written_pieces (optimize_grid_size sha verbose
         \<lparr>piece_files = Some (before @ after), layout_json = layout\<rparr>) \<and>
     written_metadata (optimize_grid_size sha verbose
         \<lparr>piece_files = Some (before @ (pid, Some img) # after), layout_json = layout\<rparr>) =
       written_metadata (optimize_grid_size sha verbose
         \<lparr>piece_files = Some (before @ after), layout_json = layout\<rparr>) \<and>
     returned (optimize_grid_size sha verbose
         \<lparr>piece_files = Some (before @ (pid, Some img) # after), layout_json = layout\<rparr>) =
       returned (optimize_grid_size sha verbose
         \<lparr>piece_files = Some (before @ after), layout_json = layout\<rparr>)"
proof -
  have f: "find_content_bounds verbose img =
      (log_message verbose Warning_completely_transparent, None)"
    using assms by (rule find_content_bounds_transparent)
  have p: "optimize_piece sha verbose (pid, Some img) =
       (log_message verbose (Optimizing_piece pid)
          @ log_message verbose Warning_completely_transparent
          @ log_message verbose (Warning_no_content pid), None)"
    by (rule optimize_piece_no_content[OF f])
  then have "snd (optimize_piece sha verbose (pid, Some img)) = None" by simp
  then have c: "collected_results sha verbose (before @ (pid, Some img) # after) =
     collected_results sha verbose (before @ after)"
    by (rule collected_results_skip)
  from p optimize_grid_size_same_results[OF c, of layout] show ?thesis by (intro conjI)
qed

theorem transparent_piece_skipped_witness:
  "optimize_piece example_digest True (''0_1'', Some (transparent_image 4 4)) =
     ([Optimizing_piece ''0_1'', Warning_completely_transparent, Warning_no_content ''0_1''],
      None) \<and>
   returned (optimize_grid_size example_digest True
       \<lparr>piece_files = Some [(''0_0'', Some (rect_image 6 5 2 2 3 3)),
                            (''0_1'', Some (transparent_image 4 4))],
        layout_json = Layout_absent\<rparr>) = Inr True \<and>
   written_pieces (optimize_grid_size example_digest True
       \<lparr>piece_files = Some [(''0_0'', Some (rect_image 6 5 2 2 3 3)),
                            (''0_1'', Some (transparent_image 4 4))],
        layout_json = Layout_absent\<rparr>) ''0_1.png'' = None"
proof -
  let ?f = "(''0_0'', Some (rect_image 6 5 2 2 3 3))"
  let ?d = "\<lparr>piece_files = Some [?f], layout_json = Layout_absent\<rparr>"
  have wf: "wf_image (transparent_image 4 4)" by (simp add: transparent_image_def)
  have tr: "\<forall>x y. x < img_width (transparent_image 4 4) \<and> y < img_height (transparent_image 4 4)
      \<longrightarrow> alpha (getpixel (transparent_image 4 4) x y) = 0"
    by (simp add: transparent_image_def transparent_pixel_def)
  note t = transparent_piece_skipped[OF wf tr, of example_digest True "''0_1''" "[?f]" "[]"
      Layout_absent]
  from optimize_piece_rect[of 2 3 6 2 3 5 example_digest True "''0_0''"]
  obtain r where r: "snd (optimize_piece example_digest True ?f) = Some r"
    "piece_id r = ''0_0''" by auto
  then have cr: "collected_results example_digest True [?f] = [r]"
    by (simp add: collected_results_Cons)
  have cv: "canvas_size_of (snd (load_canvas_info True (layout_json ?d)))
      = Inr \<lparr>sd_width = 2048, sd_height = 2048\<rparr>"
    by (rule canvas_size_of_default) simp
  have ret: "returned (optimize_grid_size example_digest True ?d) = Inr True"
    by (rule grid_metadata_written(1)[of ?d "[?f]" example_digest True, OF _ _ cv])
       (simp_all add: cr)
  have wp: "written_pieces (optimize_grid_size example_digest True ?d) ''0_1.png'' = None"
    using optimize_grid_size_files(1)[of ?d "[?f]" example_digest True] cr r(2) by simp
  from t ret wp show ?thesis by (simp add: log_message_def)
qed


section \<open>When a grid size succeeds\<close>

text \<open>
  Claim C9 says that \<open>optimize_grid_size\<close> returns \<open>True\<close> whenever the pieces directory
  exists and one piece is optimized. With a \<^verbatim>\<open>layout.ipuz.json\<close> whose \<^verbatim>\<open>canvas\<close> object
  has no \<^verbatim>\<open>width\<close>, \<^verbatim>\<open>canvas_info['width']\<close> raises \<^verbatim>\<open>KeyError\<close> in
  \<^verbatim>\<open>_generate_optimization_metadata\<close>, which nothing catches.
\<close>

theorem optimize_grid_size_canvas_without_width:
  "snd (optimize_piece example_digest False (''0_0'', Some (rect_image 6 5 2 2 3 3))) \<noteq> None \<and>
   returned (optimize_grid_size example_digest False
       \<lparr>piece_files = Some [(''0_0'', Some (rect_image 6 5 2 2 3 3))],
        layout_json = Layout_canvas []\<rparr>) = Inl KeyError"
proof -
  let ?f = "(''0_0'', Some (rect_image 6 5 2 2 3 3))"
  let ?d = "\<lparr>piece_files = Some [?f], layout_json = Layout_canvas []\<rparr>"
  from optimize_piece_rect[of 2 3 6 2 3 5 example_digest False "''0_0''"]
  obtain r where r: "snd (optimize_piece example_digest False ?f) = Some r" by auto
  then have cr: "collected_results example_digest False [?f] = [r]"
    by (simp add: collected_results_Cons)
  have cv: "canvas_size_of (snd (load_canvas_info False (Layout_canvas []))) = Inl KeyError"
    by (simp add: load_canvas_info_def canvas_size_of_def dict_item_def)
  have "returned (optimize_grid_size example_digest False ?d) = Inl KeyError"
    using optimize_grid_size_files(3)[of ?d "[?f]" example_digest False] cr
    by (simp add: generate_optimization_metadata_no_canvas[OF cv])
  with r show ?thesis by simp
qed

lemma collected_results_empty_iff:
  "collected_results sha verbose files = [] \<longleftrightarrow>
     (\<forall>f \<in> set files. snd (optimize_piece sha verbose f) = None)"
  by (induction files) (auto simp: collected_results_Cons split: option.splits)

lemma optimize_piece_catches:
  assumes "optimize_piece_try sha verbose f = (logged, Inl e)"
  shows "optimize_piece sha verbose f =
     (logged @ log_message verbose (Error_optimizing_piece (fst f) e), None)"
  using assms by (simp add: optimize_piece_def)

text \<open>
  Claim C9, amended: every exception inside \<open>optimize_piece\<close> is caught and turned into
  a skipped piece (\<open>None\<close>), so a failing piece never aborts the batch;
  \<open>optimize_grid_size\<close> returns \<open>True\<close> whenever the pieces directory exists, at least one
  piece is optimized and the canvas information (read from the layout, or the default)
  has a \<^verbatim>\<open>width\<close> and a \<^verbatim>\<open>height\<close>, even if other pieces fail; and it returns \<open>False\<close>
  exactly when the pieces directory is missing or no piece at all was optimized.
\<close>

theorem optimize_grid_size_succeeds:
  "(optimize_piece_try sha verbose f = (logged, Inl e) \<longrightarrow>
      snd (optimize_piece sha verbose f) = None) \<and>
   (piece_files dir = Some files \<and>
    (\<exists>f \<in> set files. snd (optimize_piece sha verbose f) \<noteq> None) \<and>
    canvas_size_of (snd (load_canvas_info verbose (layout_json dir))) = Inr canvas \<longrightarrow>
      returned (optimize_grid_size sha verbose dir) = Inr True) \<and>
   (returned (optimize_grid_size sha verbose dir) = Inr False \<longleftrightarrow>
      piece_files dir = None \<or>
      (\<exists>files. piece_files dir = Some files \<and>
         (\<forall>f \<in> set files. snd (optimize_piece sha verbose f) = None)))"
proof (intro conjI impI)
  assume "optimize_piece_try sha verbose f = (logged, Inl e)"
  from optimize_piece_catches[OF this] show "snd (optimize_piece sha verbose f) = None"
    by simp
next
  assume a: "piece_files dir = Some files \<and>
    (\<exists>f \<in> set files. snd (optimize_piece sha verbose f) \<noteq> None) \<and>
    canvas_size_of (snd (load_canvas_info verbose (layout_json dir))) = Inr canvas"
  then have ne: "collected_results sha verbose files \<noteq> []"
    by (simp add: collected_results_empty_iff)
  from a show "returned (optimize_grid_size sha verbose dir) = Inr True"
    using grid_metadata_written(1)[OF _ ne] by blast
next
  show "returned (optimize_grid_size sha verbose dir) = Inr False \<longleftrightarrow>
      piece_files dir = None \<or>
      (\<exists>files. piece_files dir = Some files \<and>
         (\<forall>f \<in> set files. snd (optimize_piece sha verbose f) = None))"
  proof (cases "piece_files dir")
    case None
    then show ?thesis by (simp add: optimize_grid_size_no_directory)
  next
    case (Some files)
    have "returned (optimize_grid_size sha verbose dir) = Inr False \<longleftrightarrow>
        collected_results sha verbose files = []"
      unfolding optimize_grid_size_files(3)[OF Some]
      by (auto split: sum.splits)
    then show ?thesis using Some by (simp add: collected_results_empty_iff)
  qed
qed

theorem optimize_grid_size_succeeds_witness:
  "snd (optimize_piece example_digest True (''0_1'', None)) = None \<and>
   returned (optimize_grid_size example_digest True
       \<lparr>piece_files = Some [(''0_0'', Some (rect_image 6 5 2 2 3 3)), (''0_1'', None),
                            (''0_2'', Some (transparent_image 4 4))],
        layout_json = Layout_unreadable\<rparr>) = Inr True \<and>
   returned (optimize_grid_size example_digest True
       \<lparr>piece_files = None, layout_json = Layout_unreadable\<rparr>) = Inr False \<and>
   returned (optimize_grid_size example_digest True
       \<lparr>piece_files = Some [(''0_1'', None)], layout_json = Layout_unreadable\<rparr>) = Inr False"
proof -
  let ?f = "(''0_0'', Some (rect_image 6 5 2 2 3 3))"
  let ?files = "[?f, (''0_1'', None), (''0_2'', Some (transparent_image 4 4))] :: piece_file list"
  let ?d = "\<lparr>piece_files = Some ?files, layout_json = Layout_unreadable\<rparr>"
  let ?dnone = "\<lparr>piece_files = None, layout_json = Layout_unreadable\<rparr>"
  let ?dfail = "\<lparr>piece_files = Some [(''0_1'', None)], layout_json = Layout_unreadable\<rparr>"
  have t: "optimize_piece_try example_digest True (''0_1'', None) =
      ([Optimizing_piece ''0_1''], Inl OSError)"
    by (simp add: optimize_piece_try_def log_message_def)
  have n: "snd (optimize_piece example_digest True (''0_1'', None)) = None"
    using optimize_grid_size_succeeds[where sha = example_digest and verbose = True
        and f = "(''0_1'', None)" and logged = "[Optimizing_piece ''0_1'']" and e = OSError,
        THEN conjunct1] t by blast
  from optimize_piece_rect[of 2 3 6 2 3 5 example_digest True "''0_0''"]
  have r: "snd (optimize_piece example_digest True ?f) \<noteq> None" by auto
  have cv: "canvas_size_of (snd (load_canvas_info True (layout_json ?d)))
      = Inr \<lparr>sd_width = 2048, sd_height = 2048\<rparr>"
    by (rule canvas_size_of_default) simp
  note T = optimize_grid_size_succeeds[where sha = example_digest and verbose = True]
  have in_files: "\<exists>f \<in> set ?files. snd (optimize_piece example_digest True f) \<noteq> None"
  proof (rule bexI[of _ ?f])
    show "snd (optimize_piece example_digest True ?f) \<noteq> None" by (rule r)
    show "?f \<in> set ?files" by simp
  qed
  have d: "piece_files ?d = Some ?files" by simp
  have a: "returned (optimize_grid_size example_digest True ?d) = Inr True"
    using T[where dir = ?d and files = ?files, THEN conjunct2, THEN conjunct1] d in_files cv
    by blast
  have b: "returned (optimize_grid_size example_digest True ?dnone) = Inr False"
    using T[where dir = ?dnone, THEN conjunct2, THEN conjunct2] by simp
  have "\<forall>f \<in> set [(''0_1'', None :: image option)].
      snd (optimize_piece example_digest True f) = None"
    using n by simp
  then have c: "returned (optimize_grid_size example_digest True ?dfail) = Inr False"
    using T[where dir = ?dfail, THEN conjunct2, THEN conjunct2] by simp
  from n a b c show ?thesis by blast
qed

section \<open>Recorded bounds and the saved image\<close>

text \<open>
  The check of \<^verbatim>\<open>optimize_puzzle_assets_no_padding.py\<close>: every entry of a document it
  produces has the width and height of a cropped image of that piece, and a result whose
  cropped image does not have the inclusive width and height of its bounds makes the
  generation raise.
\<close>

lemma pieces_metadata_loop_no_padding_checked:
  assumes "pieces_metadata_loop_no_padding canvas_info results pm0 = Inr pm"
    and "pm pid = Some entry"
  shows "pm0 pid = Some entry \<or>
     (\<exists>r \<in> set results. piece_id r = pid \<and>
        bd_width (pm_bounds entry) = int (img_width (cropped_image r)) \<and>
        bd_height (pm_bounds entry) = int (img_height (cropped_image r)))"
  using assms
proof (induction results arbitrary: pm0)
  case Nil
  then show ?case by simp
next
  case (Cons r rest)
  from Cons.prems(1) obtain canvas where
    ok: "int (img_width (cropped_image r)) = width_no_padding (bounds r)"
        "int (img_height (cropped_image r)) = height_no_padding (bounds r)"
    and cv: "canvas_size_of canvas_info = Inr canvas"
    and rest: "pieces_metadata_loop_no_padding canvas_info rest
        (pm0(piece_id r \<mapsto>
           \<lparr>pm_bounds =
              \<lparr>bd_left = bb_left (bounds r), bd_top = bb_top (bounds r),
               bd_right = bb_right (bounds r), bd_bottom = bb_bottom (bounds r),
               bd_width = width_no_padding (bounds r),
               bd_height = height_no_padding (bounds r)\<rparr>,
            pm_canvas_size = canvas, pm_content_hash = content_hash r,
            pm_cropped_filename = piece_id r @ ''.png''\<rparr>)) = Inr pm"
    by (auto simp: Let_def split: if_splits sum.splits)
  from Cons.IH[OF rest Cons.prems(2)] show ?case
    using ok by (auto split: if_splits)
qed

lemma generate_optimization_metadata_no_padding_dimensions:
  assumes "generate_optimization_metadata_no_padding results canvas_info tob tsb = Inr m"
    and "pieces m pid = Some entry"
  shows "\<exists>r \<in> set results. piece_id r = pid \<and>
        bd_width (pm_bounds entry) = int (img_width (cropped_image r)) \<and>
        bd_height (pm_bounds entry) = int (img_height (cropped_image r))"
proof -
  from assms(1) obtain pm where
    l: "pieces_metadata_loop_no_padding canvas_info results Map.empty = Inr pm"
    and "pieces m = pm"
    by (auto simp: generate_optimization_metadata_no_padding_def split: sum.splits)
  with assms(2) have "pm pid = Some entry" by simp
  from pieces_metadata_loop_no_padding_checked[OF l this] show ?thesis by simp
qed

lemma pieces_metadata_loop_no_padding_rejects:
  assumes "r \<in> set results"
    and "int (img_width (cropped_image r)) \<noteq> width_no_padding (bounds r) \<or>
         int (img_height (cropped_image r)) \<noteq> height_no_padding (bounds r)"
  shows "\<exists>e. pieces_metadata_loop_no_padding canvas_info results pm0 = Inl e"
  using assms
  by (induction results arbitrary: pm0) (auto simp: Let_def split: sum.splits)

lemma generate_optimization_metadata_no_padding_rejects:
  assumes "r \<in> set results"
    and "int (img_width (cropped_image r)) \<noteq> width_no_padding (bounds r) \<or>
         int (img_height (cropped_image r)) \<noteq> height_no_padding (bounds r)"
  shows "\<exists>e. generate_optimization_metadata_no_padding results canvas_info tob tsb = Inl e"
  using pieces_metadata_loop_no_padding_rejects[OF assms, of canvas_info Map.empty]
  by (auto simp: generate_optimization_metadata_no_padding_def)

lemma scenario_outcome:
  fixes sha :: "8 word list \<Rightarrow> string"
  defines "d \<equiv> \<lparr>piece_files = Some [(''0_0'', Some (rect_image 400 400 50 30 149 119))],
                 layout_json = Layout_canvas [(''width'', 400), (''height'', 400)]\<rparr>"
  shows "\<exists>(r :: piece_optimization_result) m.
     written_pieces (optimize_grid_size sha verbose d) ''0_0.png'' = Some (cropped_image r) \<and>
     img_width (cropped_image r) = 104 \<and> img_height (cropped_image r) = 94 \<and>
     bounds r = \<lparr>bb_left = 50, bb_top = 30, bb_right = 149, bb_bottom = 119\<rparr> \<and>
     written_metadata (optimize_grid_size sha verbose d) = Some m \<and>
     returned (optimize_grid_size sha verbose d) = Inr True \<and>
     pieces m ''0_0'' =
       Some \<lparr>pm_bounds =
               \<lparr>bd_left = 50, bd_top = 30, bd_right = 149, bd_bottom = 119,
                bd_width = 99, bd_height = 89\<rparr>,
             pm_canvas_size = \<lparr>sd_width = 400, sd_height = 400\<rparr>,
             pm_content_hash = content_hash r,
             pm_cropped_filename = ''0_0.png''\<rparr>"
proof -
  let ?f = "(''0_0'', Some (rect_image 400 400 50 30 149 119))"
  from optimize_piece_rect[of 50 149 400 30 119 400 sha verbose "''0_0''"]
  obtain r where r: "snd (optimize_piece sha verbose ?f) = Some r" "piece_id r = ''0_0''"
    "bounds r = \<lparr>bb_left = 50, bb_top = 30, bb_right = 149, bb_bottom = 119\<rparr>"
    "img_width (cropped_image r) = 104" "img_height (cropped_image r) = 94"
    by auto
  have cr: "collected_results sha verbose [?f] = [r]"
    using r(1) by (simp add: collected_results_Cons)
  have files: "piece_files d = Some [?f]" by (simp add: d_def)
  have cv: "canvas_size_of (snd (load_canvas_info verbose (layout_json d)))
      = Inr \<lparr>sd_width = 400, sd_height = 400\<rparr>"
    by (simp add: d_def load_canvas_info_def canvas_size_of_def dict_item_def)
  have ret: "returned (optimize_grid_size sha verbose d) = Inr True"
    by (rule grid_metadata_written(1)[OF files _ cv]) (simp add: cr)
  have wp: "written_pieces (optimize_grid_size sha verbose d) ''0_0.png''
      = Some (cropped_image r)"
    unfolding optimize_grid_size_files(1)[OF files] cr using r(2) by simp
  let ?m = "\<lparr>version = ''1.0'', canvas_size = \<lparr>sd_width = 400, sd_height = 400\<rparr>,
          pieces = foldl (\<lambda>m r. m(piece_id r \<mapsto>
            \<lparr>pm_bounds =
               \<lparr>bd_left = bb_left (bounds r), bd_top = bb_top (bounds r),
                bd_right = bb_right (bounds r), bd_bottom = bb_bottom (bounds r),
                bd_width = width (bounds r), bd_height = height (bounds r)\<rparr>,
             pm_canvas_size = \<lparr>sd_width = 400, sd_height = 400\<rparr>,
             pm_content_hash = content_hash r,
             pm_cropped_filename = piece_id r @ ''.png''\<rparr>)) Map.empty [r],
          statistics = statistics_of (length [r]) (sum_list (map original_bytes_of [r]))
             (sum_list (map memory_saved_bytes [r]))\<rparr>"
  have wm: "written_metadata (optimize_grid_size sha verbose d) = Some ?m"
    unfolding optimize_grid_size_files(2)[OF files] cr
      generate_optimization_metadata_canvas[OF cv]
    by simp
  have pc: "pieces ?m ''0_0'' =
       Some \<lparr>pm_bounds =
               \<lparr>bd_left = 50, bd_top = 30, bd_right = 149, bd_bottom = 119,
                bd_width = 99, bd_height = 89\<rparr>,
             pm_canvas_size = \<lparr>sd_width = 400, sd_height = 400\<rparr>,
             pm_content_hash = content_hash r,
             pm_cropped_filename = ''0_0.png''\<rparr>"
    using r(2,3) by (simp add: width_def height_def)
  define m where "m = ?m"
  have "written_metadata (optimize_grid_size sha verbose d) = Some m"
    and "pieces m ''0_0'' =
       Some \<lparr>pm_bounds =
               \<lparr>bd_left = 50, bd_top = 30, bd_right = 149, bd_bottom = 119,
                bd_width = 99, bd_height = 89\<rparr>,
             pm_canvas_size = \<lparr>sd_width = 400, sd_height = 400\<rparr>,
             pm_content_hash = content_hash r,
             pm_cropped_filename = ''0_0.png''\<rparr>"
    unfolding m_def using wm pc by simp_all
  with wp r(3,4,5) ret show ?thesis by blast
qed

text \<open>
  Claim C1: for every piece record written into the optimization metadata, the recorded
  \<open>bounds.width\<close> and \<open>bounds.height\<close> are the pixel width and height of the cropped image
  saved for that piece. \<^verbatim>\<open>optimize_puzzle_assets.py\<close> records the detected content box
  with its exclusive width and height and saves the crop padded by 2 pixels: for the
  \<open>400 \<times> 400\<close> image with the opaque rectangle from \<open>(50, 30)\<close> to \<open>(149, 119)\<close> the
  metadata says \<open>99 \<times> 89\<close> and the saved file is \<open>104 \<times> 94\<close>.
\<close>

theorem scenario_bounds_differ_from_cropped_image:
  "\<exists>m entry cropped.
     written_metadata (optimize_grid_size example_digest False
        \<lparr>piece_files = Some [(''0_0'', Some (rect_image 400 400 50 30 149 119))],
         layout_json = Layout_canvas [(''width'', 400), (''height'', 400)]\<rparr>) = Some m \<and>
     pieces m ''0_0'' = Some entry \<and>
     written_pieces (optimize_grid_size example_digest False
        \<lparr>piece_files = Some [(''0_0'', Some (rect_image 400 400 50 30 149 119))],
         layout_json = Layout_canvas [(''width'', 400), (''height'', 400)]\<rparr>) ''0_0.png''
       = Some cropped \<and>
     bd_width (pm_bounds entry) = 99 \<and> bd_height (pm_bounds entry) = 89 \<and>
     img_width cropped = 104 \<and> img_height cropped = 94"
proof -
  from scenario_outcome[of example_digest False]
  obtain r :: piece_optimization_result and m where
    "written_pieces (optimize_grid_size example_digest False
        \<lparr>piece_files = Some [(''0_0'', Some (rect_image 400 400 50 30 149 119))],
         layout_json = Layout_canvas [(''width'', 400), (''height'', 400)]\<rparr>) ''0_0.png''
       = Some (cropped_image r)"
    "img_width (cropped_image r) = 104" "img_height (cropped_image r) = 94"
    "written_metadata (optimize_grid_size example_digest False
        \<lparr>piece_files = Some [(''0_0'', Some (rect_image 400 400 50 30 149 119))],
         layout_json = Layout_canvas [(''width'', 400), (''height'', 400)]\<rparr>) = Some m"
    "pieces m ''0_0'' =
       Some \<lparr>pm_bounds =
               \<lparr>bd_left = 50, bd_top = 30, bd_right = 149, bd_bottom = 119,
                bd_width = 99, bd_height = 89\<rparr>,
             pm_canvas_size = \<lparr>sd_width = 400, sd_height = 400\<rparr>,
             pm_content_hash = content_hash r,
             pm_cropped_filename = ''0_0.png''\<rparr>"
    by blast
  then show ?thesis
    by (intro exI[of _ m] exI[of _ "cropped_image r"]
          exI[of _ "\<lparr>pm_bounds =
               \<lparr>bd_left = 50, bd_top = 30, bd_right = 149, bd_bottom = 119,
                bd_width = 99, bd_height = 89\<rparr>,
             pm_canvas_size = \<lparr>sd_width = 400, sd_height = 400\<rparr>,
             pm_content_hash = content_hash r,
             pm_cropped_filename = ''0_0.png''\<rparr>"]) simp
qed

text \<open>
  Claim C3: metadata generation rejects every piece whose recorded bounds do not match
  the dimensions of its cropped image, so that no document with such a piece is written.
  \<^verbatim>\<open>_generate_optimization_metadata\<close> of \<^verbatim>\<open>optimize_puzzle_assets.py\<close> has no such check:
  for the same image \<open>optimize_grid_size\<close> returns \<open>True\<close> and writes a document whose
  entry differs from the saved file in width and in height.
\<close>

theorem scenario_mismatch_not_rejected:
  "returned (optimize_grid_size example_digest False
        \<lparr>piece_files = Some [(''0_0'', Some (rect_image 400 400 50 30 149 119))],
         layout_json = Layout_canvas [(''width'', 400), (''height'', 400)]\<rparr>) = Inr True \<and>
   (\<exists>m entry cropped.
      written_metadata (optimize_grid_size example_digest False
        \<lparr>piece_files = Some [(''0_0'', Some (rect_image 400 400 50 30 149 119))],
         layout_json = Layout_canvas [(''width'', 400), (''height'', 400)]\<rparr>) = Some m \<and>
      pieces m ''0_0'' = Some entry \<and>
      written_pieces (optimize_grid_size example_digest False
        \<lparr>piece_files = Some [(''0_0'', Some (rect_image 400 400 50 30 149 119))],
         layout_json = Layout_canvas [(''width'', 400), (''height'', 400)]\<rparr>) ''0_0.png''
        = Some cropped \<and>
      bd_width (pm_bounds entry) \<noteq> int (img_width cropped) \<and>
      bd_height (pm_bounds entry) \<noteq> int (img_height cropped))"
proof -
  from scenario_outcome[of example_digest False]
  obtain r :: piece_optimization_result and m where
    "written_pieces (optimize_grid_size example_digest False
        \<lparr>piece_files = Some [(''0_0'', Some (rect_image 400 400 50 30 149 119))],
         layout_json = Layout_canvas [(''width'', 400), (''height'', 400)]\<rparr>) ''0_0.png''
       = Some (cropped_image r)"
    "img_width (cropped_image r) = 104" "img_height (cropped_image r) = 94"
    "written_metadata (optimize_grid_size example_digest False
        \<lparr>piece_files = Some [(''0_0'', Some (rect_image 400 400 50 30 149 119))],
         layout_json = Layout_canvas [(''width'', 400), (''height'', 400)]\<rparr>) = Some m"
    "returned (optimize_grid_size example_digest False
        \<lparr>piece_files = Some [(''0_0'', Some (rect_image 400 400 50 30 149 119))],
         layout_json = Layout_canvas [(''width'', 400), (''height'', 400)]\<rparr>) = Inr True"
    "pieces m ''0_0'' =
       Some \<lparr>pm_bounds =
               \<lparr>bd_left = 50, bd_top = 30, bd_right = 149, bd_bottom = 119,
                bd_width = 99, bd_height = 89\<rparr>,
             pm_canvas_size = \<lparr>sd_width = 400, sd_height = 400\<rparr>,
             pm_content_hash = content_hash r,
             pm_cropped_filename = ''0_0.png''\<rparr>"
    by blast
  then show ?thesis
    by (intro conjI exI[of _ m] exI[of _ "cropped_image r"]
          exI[of _ "\<lparr>pm_bounds =
               \<lparr>bd_left = 50, bd_top = 30, bd_right = 149, bd_bottom = 119,
                bd_width = 99, bd_height = 89\<rparr>,
             pm_canvas_size = \<lparr>sd_width = 400, sd_height = 400\<rparr>,
             pm_content_hash = content_hash r,
             pm_cropped_filename = ''0_0.png''\<rparr>"]) simp_all
qed

end
